theory Spec2Isabelle
  imports Main "HOL-Library.Sublist"
begin

section \<open>Python string primitives used by the text pipeline\<close>

text \<open>
  A Python \<open>str\<close> is a sequence of code points. It is modelled as a HOL \<open>string\<close>,
  one \<open>char\<close> per code point, which covers the code points 0 to 255. Indices and lengths
  are Python integers, modelled as \<open>int\<close>.
\<close>

definition py_isspace :: "char \<Rightarrow> bool" where
  \<comment> \<open>\<open>str.isspace\<close> on one code point below 256: TAB..CR, FS..US, SPACE, NEL, NBSP.\<close>
  "py_isspace c =
     (let n = (of_char c :: nat)
      in (9 \<le> n \<and> n \<le> 13) \<or> (28 \<le> n \<and> n \<le> 32) \<or> n = 133 \<or> n = 160)"

definition py_lstrip :: "string \<Rightarrow> string" where
  "py_lstrip s = dropWhile py_isspace s"

definition py_rstrip :: "string \<Rightarrow> string" where
  "py_rstrip s = rev (dropWhile py_isspace (rev s))"

definition py_strip :: "string \<Rightarrow> string" where
  \<comment> \<open>\<open>s.strip()\<close>\<close>
  "py_strip s = py_rstrip (py_lstrip s)"

definition adjust_index :: "int \<Rightarrow> int \<Rightarrow> int" where
  \<comment> \<open>A slice bound of a sequence of length \<open>L\<close>: negative bounds count from the end,
      and the result is clamped to \<open>0..L\<close>.\<close>
  "adjust_index L i = (if i < 0 then max 0 (i + L) else min i L)"

definition py_slice :: "'a list \<Rightarrow> int \<Rightarrow> int \<Rightarrow> 'a list" where
  \<comment> \<open>\<open>s[a:b]\<close>\<close>
  "py_slice s a b =
     (let L = int (length s); a' = adjust_index L a; b' = adjust_index L b
      in take (nat (b' - a')) (drop (nat a') s))"

fun rindex :: "'a \<Rightarrow> 'a list \<Rightarrow> nat option" where
  \<comment> \<open>The last position of \<open>c\<close> in a list, if it occurs.\<close>
  "rindex c [] = None"
| "rindex c (x # xs) =
     (case rindex c xs of
        Some i \<Rightarrow> Some (Suc i)
      | None \<Rightarrow> if x = c then Some 0 else None)"

definition py_rfind :: "string \<Rightarrow> char \<Rightarrow> int \<Rightarrow> int \<Rightarrow> int" where
  \<comment> \<open>\<open>s.rfind(sub, a, b)\<close> for a one-character \<open>sub\<close>, as at both call sites: the highest
      index in the adjusted range that holds \<open>sub\<close>, or \<open>-1\<close>. The end bound is clamped to
      the length; the start bound is only lifted when negative.\<close>
  "py_rfind s c a b =
     (let L = int (length s);
          b' = adjust_index L b;
          a' = (if a < 0 then max 0 (a + L) else a)
      in case rindex c (take (nat (b' - a')) (drop (nat a') s)) of
           None \<Rightarrow> - 1
         | Some i \<Rightarrow> a' + int i)"

section \<open>The chunker: \<open>simple_chunk_text\<close> in \<open>app/main.py\<close>\<close>

text \<open>
  The \<open>while\<close> loop of the chunker is the recursion \<open>chunk_loop\<close> on the cursor
  \<open>start\<close> and the list \<open>chunks\<close>. Nothing in the code bounds the number of passes,
  so the loop is a partial function: \<open>None\<close> is the result of a loop that runs forever,
  as it does for a non-empty text when \<open>max_chars\<close> is zero. \<open>split_index\<close> is the
  part of the loop body that computes the split point from the cursor.
\<close>

definition split_index :: "string \<Rightarrow> int \<Rightarrow> int \<Rightarrow> int" where
  \<comment> \<open>The value of \<open>split_index\<close> at the end of one pass through the loop body.\<close>
  "split_index text max_chars start =
     (let L = int (length text);
          end' = min (start + max_chars) L;
          si = py_rfind text (CHR 0x0A) start end';
          si = (if si \<le> start then py_rfind text (CHR ''.'') start end' else si);
          si = (if si \<le> start then end' else si)
      in si)"

partial_function (option) chunk_loop ::
  "string \<Rightarrow> int \<Rightarrow> int \<Rightarrow> string list \<Rightarrow> string list option" where
  "chunk_loop text max_chars start chunks =
     (if start < int (length text)
      then chunk_loop text max_chars (split_index text max_chars start)
             (chunks @ [py_strip (py_slice text start (split_index text max_chars start))])
      else Some chunks)"

declare chunk_loop.simps [code]

definition simple_chunk_text :: "string \<Rightarrow> int \<Rightarrow> string list option" where
  \<comment> \<open>\<open>None\<close> stands for a loop that never returns.\<close>
  "simple_chunk_text text max_chars =
     (let text = py_strip text
      in if text = [] then Some [] else chunk_loop text max_chars 0 [])"

section \<open>Further string primitives\<close>

datatype error =
    RuntimeError string
  | FileNotFoundError string
  | ValueError string
  | IndexError
  | HTTPException int string

definition py_index :: "'a list \<Rightarrow> int \<Rightarrow> error + 'a" where
  \<comment> \<open>\<open>xs[i]\<close>: a negative index counts from the end, an index out of range raises.\<close>
  "py_index xs i =
     (let j = (if i < 0 then i + int (length xs) else i)
      in if j < 0 \<or> int (length xs) \<le> j then Inl IndexError else Inr (xs ! nat j))"

definition is_linebreak :: "char \<Rightarrow> bool" where
  \<comment> \<open>The line boundaries of \<open>str.splitlines\<close> below 256: LF, VT, FF, CR, FS, GS, RS, NEL.\<close>
  "is_linebreak c =
     (let n = (of_char c :: nat)
      in (10 \<le> n \<and> n \<le> 13) \<or> (28 \<le> n \<and> n \<le> 30) \<or> n = 133)"

fun splitlines_from :: "string \<Rightarrow> string \<Rightarrow> string list" where
  \<comment> \<open>\<open>cur\<close> is the current line, reversed. CR LF is one boundary; a final line is
      emitted only when it is not empty.\<close>
  "splitlines_from cur [] = (if cur = [] then [] else [rev cur])"
| "splitlines_from cur [c] =
     (if is_linebreak c then [rev cur] else [rev (c # cur)])"
| "splitlines_from cur (c # d # cs) =
     (if c = CHR 0x0D \<and> d = CHR 0x0A then rev cur # splitlines_from [] cs
      else if is_linebreak c then rev cur # splitlines_from [] (d # cs)
      else splitlines_from (c # cur) (d # cs))"

definition splitlines :: "string \<Rightarrow> string list" where
  \<comment> \<open>\<open>s.splitlines()\<close>\<close>
  "splitlines s = splitlines_from [] s"

definition py_lower_char :: "char \<Rightarrow> char" where
  "py_lower_char c =
     (let n = (of_char c :: nat)
      in if (65 \<le> n \<and> n \<le> 90) \<or> (192 \<le> n \<and> n \<le> 222 \<and> n \<noteq> 215)
         then char_of (n + 32) else c)"

definition py_lower :: "string \<Rightarrow> string" where
  \<comment> \<open>\<open>s.lower()\<close>\<close>
  "py_lower s = map py_lower_char s"

definition py_upper_char :: "char \<Rightarrow> string" where
  \<comment> \<open>The upper-case form of one code point. U+00DF has the two-character form \<open>SS\<close>.
      The upper-case forms of U+00B5 and U+00FF lie above 255 and cannot be written in
      this model, which leaves these two code points as they are; neither form is an
      ASCII character.\<close>
  "py_upper_char c =
     (let n = (of_char c :: nat)
      in if (97 \<le> n \<and> n \<le> 122) \<or> (224 \<le> n \<and> n \<le> 254 \<and> n \<noteq> 247)
         then [char_of (n - 32)]
         else if n = 223 then ''SS'' else [c])"

definition py_upper :: "string \<Rightarrow> string" where
  \<comment> \<open>\<open>s.upper()\<close>\<close>
  "py_upper s = concat (map py_upper_char s)"

definition startswith :: "string \<Rightarrow> string \<Rightarrow> bool" where
  "startswith s p = prefix p s"

definition startswith_any :: "string \<Rightarrow> string list \<Rightarrow> bool" where
  \<comment> \<open>\<open>s.startswith((p1, p2, ...))\<close>\<close>
  "startswith_any s ps = list_ex (\<lambda>p. prefix p s) ps"

definition endswith :: "string \<Rightarrow> string \<Rightarrow> bool" where
  "endswith s p = suffix p s"

fun py_contains :: "string \<Rightarrow> string \<Rightarrow> bool" where
  \<comment> \<open>\<open>sub in s\<close>\<close>
  "py_contains sub [] = (sub = [])"
| "py_contains sub (c # cs) = (prefix sub (c # cs) \<or> py_contains sub cs)"

function split_from :: "string \<Rightarrow> int \<Rightarrow> string \<Rightarrow> string \<Rightarrow> string list" where
  \<comment> \<open>Splitting at the occurrences of a non-empty separator, left to right, at most
      \<open>n\<close> times when \<open>n\<close> is not negative; \<open>cur\<close> is the current field, reversed.\<close>
  "split_from sep n cur s =
     (if s = [] then [rev cur]
      else if n \<noteq> 0 \<and> sep \<noteq> [] \<and> prefix sep s
           then rev cur # split_from sep (n - 1) [] (drop (length sep) s)
           else split_from sep n (hd s # cur) (tl s))"
  by pat_completeness auto
termination
  by (relation "measure (\<lambda>(sep, n, cur, s). length s)") auto

declare split_from.simps [simp del]

definition py_split :: "string \<Rightarrow> string \<Rightarrow> int \<Rightarrow> error + string list" where
  \<comment> \<open>\<open>s.split(sep, maxsplit)\<close>, with \<open>maxsplit = -1\<close> for no limit.\<close>
  "py_split s sep maxsplit =
     (if sep = [] then Inl (ValueError ''empty separator'')
      else Inr (split_from sep maxsplit [] s))"

definition py_strip_chars :: "string \<Rightarrow> string \<Rightarrow> string" where
  \<comment> \<open>\<open>s.strip(chars)\<close>: removes leading and trailing characters that occur in \<open>chars\<close>.\<close>
  "py_strip_chars s chars =
     rev (dropWhile (\<lambda>c. c \<in> set chars) (rev (dropWhile (\<lambda>c. c \<in> set chars) s)))"

definition py_lstrip_chars :: "string \<Rightarrow> string \<Rightarrow> string" where
  \<comment> \<open>\<open>s.lstrip(chars)\<close>\<close>
  "py_lstrip_chars s chars = dropWhile (\<lambda>c. c \<in> set chars) s"

fun py_join :: "string \<Rightarrow> string list \<Rightarrow> string" where
  \<comment> \<open>\<open>sep.join(xs)\<close>\<close>
  "py_join sep [] = []"
| "py_join sep [x] = x"
| "py_join sep (x # y # xs) = x @ sep @ py_join sep (y # xs)"

fun nat_digits :: "nat \<Rightarrow> string" where
  "nat_digits n =
     (if n < 10 then [''0123456789'' ! n]
      else nat_digits (n div 10) @ [''0123456789'' ! (n mod 10)])"

declare nat_digits.simps [simp del]

definition str_int :: "int \<Rightarrow> string" where
  \<comment> \<open>\<open>str(i)\<close> for an integer\<close>
  "str_int i = (if i < 0 then CHR ''-'' # nat_digits (nat (- i)) else nat_digits (nat i))"

section \<open>The quiz parser: the body of \<open>quiz\<close> in \<open>app/main.py\<close>\<close>

text \<open>
  A question is the dictionary with the keys \<open>question\<close>, \<open>options\<close> and \<open>answer\<close>;
  \<open>answer\<close> is \<open>None\<close> until an answer marker is read. The parser's state is the list
  \<open>questions\<close> and the slot \<open>current_q\<close>. A question dictionary is never empty, so the
  test \<open>if current_q\<close> holds exactly when the slot is not \<open>None\<close>.
\<close>

record quiz_question =
  question :: string
  options :: "string list"
  answer :: "string option"

type_synonym quiz_state = "quiz_question list \<times> quiz_question option"

definition option_markers :: "string list" where
  "option_markers =
     [''A)'', ''B)'', ''C)'', ''D)'', ''A.'', ''B.'', ''C.'', ''D.'', ''A '', ''B '', ''C '', ''D '']"

definition is_question_line :: "string \<Rightarrow> bool" where
  "is_question_line l = (startswith (py_lower l) ''question'' \<or> endswith l ''?'')"

definition is_option_line :: "string \<Rightarrow> bool" where
  "is_option_line l = startswith_any (py_upper l) option_markers"

definition quiz_step :: "quiz_state \<Rightarrow> string \<Rightarrow> error + quiz_state" where
  \<comment> \<open>One pass through the body of the loop over the lines.\<close>
  "quiz_step st l =
     (case st of (questions, current_q) \<Rightarrow>
        if is_question_line l then
          Inr ((case current_q of Some q \<Rightarrow> questions @ [q] | None \<Rightarrow> questions),
               Some \<lparr>question = l, options = [], answer = None\<rparr>)
        else if is_option_line l then
          (let q = (case current_q of
                      None \<Rightarrow> \<lparr>question = [], options = [], answer = None\<rparr>
                    | Some q \<Rightarrow> q);
               q = q\<lparr>options := options q @ [l]\<rparr>
           in if py_contains ''(Answer:'' l \<or> py_contains ''Answer:'' l then
                (case py_split l ''Answer:'' (- 1) of
                   Inl e \<Rightarrow> Inl e
                 | Inr parts \<Rightarrow>
                     (case py_index parts (- 1) of
                        Inl e \<Rightarrow> Inl e
                      | Inr a \<Rightarrow>
                          Inr (questions, Some (q\<lparr>answer := Some (py_strip_chars a '' )'')\<rparr>))))
              else Inr (questions, Some q))
        else if py_contains ''(Answer:'' l then
          (case current_q of
             Some q \<Rightarrow>
               (case py_split l ''(Answer:'' 1 of
                  Inl e \<Rightarrow> Inl e
                | Inr parts \<Rightarrow>
                    (case py_index parts 1 of
                       Inl e \<Rightarrow> Inl e
                     | Inr a \<Rightarrow>
                         Inr (questions, Some (q\<lparr>answer := Some (py_strip_chars a '' )'')\<rparr>))))
           | None \<Rightarrow> Inr (questions, current_q))
        else
          (case current_q of
             None \<Rightarrow> Inr (questions, Some \<lparr>question = l, options = [], answer = None\<rparr>)
           | Some q \<Rightarrow> Inr (questions, current_q)))"

fun quiz_steps :: "quiz_state \<Rightarrow> string list \<Rightarrow> error + quiz_state" where
  "quiz_steps st [] = Inr st"
| "quiz_steps st (l # ls) =
     (case quiz_step st l of Inl e \<Rightarrow> Inl e | Inr st' \<Rightarrow> quiz_steps st' ls)"

definition quiz_lines :: "string \<Rightarrow> string list" where
  \<comment> \<open>\<open>[l.strip() for l in out.splitlines() if l.strip()]\<close>\<close>
  "quiz_lines out = map py_strip (filter (\<lambda>l. py_strip l \<noteq> []) (splitlines out))"

definition parse_quiz :: "string \<Rightarrow> error + quiz_question list" where
  \<comment> \<open>The value of \<open>questions\<close> after the loop and the final commit.\<close>
  "parse_quiz out =
     (case quiz_steps ([], None) (quiz_lines out) of
        Inl e \<Rightarrow> Inl e
      | Inr (questions, current_q) \<Rightarrow>
          Inr (case current_q of Some q \<Rightarrow> questions @ [q] | None \<Rightarrow> questions))"

datatype quiz_response =
    QuizRaw string \<comment> \<open>\<open>{"quiz_raw": out}\<close>\<close>
  | Quiz "quiz_question list" string \<comment> \<open>\<open>{"quiz": questions, "quiz_raw": out}\<close>\<close>

definition quiz_result :: "string \<Rightarrow> error + quiz_response" where
  "quiz_result out =
     (case parse_quiz out of
        Inl e \<Rightarrow> Inl e
      | Inr questions \<Rightarrow> Inr (if questions = [] then QuizRaw out else Quiz questions out))"

text \<open>
  The generator behind \<open>llama.generate(prompt, n_predict=...)\<close> is an external process:
  it is a parameter that takes the prompt, the token budget and the state of the world
  and returns the generated text or an error, with the new state of the world.
  \<open>get_llama()\<close> returns such a generator or raises; its result is a parameter too.
\<close>

type_synonym 'w llama = "string \<Rightarrow> int \<Rightarrow> 'w \<Rightarrow> (error + string) \<times> 'w"

definition QUIZ_PROMPT :: "string \<Rightarrow> string" where
  \<comment> \<open>\<open>QUIZ_PROMPT.format(content=c)\<close>\<close>
  "QUIZ_PROMPT content =
     ''\<newline>You are EduNote, a study assistant. Create 5 multiple-choice questions from the text below.\<newline>''
   @ ''Each question should have 4 options labeled A, B, C, D, and mark the correct option with (Answer: X).\<newline>''
   @ ''\<newline>Text:\<newline>\"\"\"\<newline>'' @ content @ ''\<newline>\"\"\"\<newline>''"

definition quiz ::
  "error + 'w llama \<Rightarrow> string \<Rightarrow> 'w \<Rightarrow> ((error + quiz_response) \<times> 'w) option" where
  \<comment> \<open>The handler of \<open>/quiz\<close>, from the text of the payload. \<open>None\<close> stands for a
      chunker that never returns.\<close>
  "quiz get_llama full_text w =
     (if full_text = [] then Some (Inl (HTTPException 400 ''No text provided.''), w)
      else case get_llama of
        Inl e \<Rightarrow> Some (Inl e, w)
      | Inr llama \<Rightarrow>
          (case simple_chunk_text full_text 3200 of
             None \<Rightarrow> None
           | Some chunk \<Rightarrow>
               (let chunk_text = (if chunk \<noteq> [] then hd chunk else py_slice full_text 0 3200);
                    prompt = QUIZ_PROMPT chunk_text
                in case llama prompt 512 w of
                     (Inl e, w') \<Rightarrow> Some (Inl e, w')
                   | (Inr out, w') \<Rightarrow> Some (quiz_result out, w'))))"

section \<open>The summary pipeline: the body of \<open>summarize\<close> in \<open>app/main.py\<close>\<close>

type_synonym summary_state = "string list \<times> string list"

definition summary_line :: "summary_state \<Rightarrow> string \<Rightarrow> error + summary_state" where
  \<comment> \<open>One pass through the body of the loop over the lines of one generated text; the
      state is the pair of \<open>bullets\<close> and \<open>summary_paragraphs\<close>.\<close>
  "summary_line st line0 =
     (case st of (bullets, summary_paragraphs) \<Rightarrow>
        (let line = py_strip line0
         in if startswith line ''-'' then
              (let b = py_strip (py_lstrip_chars line ''- '')
               in if b \<noteq> [] \<and> b \<notin> set bullets
                  then Inr (bullets @ [b], summary_paragraphs)
                  else Inr (bullets, summary_paragraphs))
            else if startswith (py_lower line) ''summary'' then
              (if py_contains '':'' line then
                 (case py_split line '':'' 1 of
                    Inl e \<Rightarrow> Inl e
                  | Inr parts \<Rightarrow>
                      (case py_index parts 1 of
                         Inl e \<Rightarrow> Inl e
                       | Inr p \<Rightarrow> Inr (bullets, summary_paragraphs @ [py_strip p])))
               else Inr (bullets, summary_paragraphs @ [py_strip line]))
            else Inr (bullets, summary_paragraphs)))"

fun summary_lines :: "summary_state \<Rightarrow> string list \<Rightarrow> error + summary_state" where
  "summary_lines st [] = Inr st"
| "summary_lines st (l # ls) =
     (case summary_line st l of Inl e \<Rightarrow> Inl e | Inr st' \<Rightarrow> summary_lines st' ls)"

definition SUMMARY_PROMPT :: "string \<Rightarrow> string" where
  \<comment> \<open>\<open>SUMMARY_PROMPT.format(content=c)\<close>\<close>
  "SUMMARY_PROMPT content =
     ''\<newline>You are EduNote, a study assistant. Summarize the following study notes into 5 concise bullet points and a 2-sentence summary.\<newline>''
   @ ''\<newline>Notes:\<newline>\"\"\"\<newline>'' @ content @ ''\<newline>\"\"\"\<newline>''
   @ ''\<newline>Output format:\<newline>- Bullet 1\<newline>- Bullet 2\<newline>...\<newline>Summary: <two sentence paragraph>\<newline>''"

fun summarize_chunks ::
  "'w llama \<Rightarrow> string list \<Rightarrow> summary_state \<Rightarrow> 'w \<Rightarrow> (error + summary_state) \<times> 'w" where
  \<comment> \<open>The loop over the chunks, with its \<open>break\<close> once five bullets are collected.\<close>
  "summarize_chunks llama [] st w = (Inr st, w)"
| "summarize_chunks llama (c # cs) st w =
     (case llama (SUMMARY_PROMPT c) 256 w of
        (Inl e, w') \<Rightarrow> (Inl e, w')
      | (Inr out, w') \<Rightarrow>
          (case summary_lines st (splitlines out) of
             Inl e \<Rightarrow> (Inl e, w')
           | Inr (bullets, summary_paragraphs) \<Rightarrow>
               if 5 \<le> length bullets then (Inr (bullets, summary_paragraphs), w')
               else summarize_chunks llama cs (bullets, summary_paragraphs) w'))"

record summary_response =
  bullets :: "string list"
  summary :: string

definition summarize ::
  "error + 'w llama \<Rightarrow> string \<Rightarrow> string \<Rightarrow> 'w \<Rightarrow> ((error + summary_response) \<times> 'w) option" where
  \<comment> \<open>The handler of \<open>/summarize\<close>, from the \<open>text\<close> and \<open>url_text\<close> of the payload.
      \<open>None\<close> stands for a chunker that never returns.\<close>
  "summarize get_llama text_field url_text w =
     (let full_text = (if text_field \<noteq> [] then text_field else url_text)
      in if full_text = [] then Some (Inl (HTTPException 400 ''No text provided.''), w)
         else case get_llama of
           Inl e \<Rightarrow> Some (Inl e, w)
         | Inr llama \<Rightarrow>
             (case simple_chunk_text full_text 3200 of
                None \<Rightarrow> None
              | Some chunks \<Rightarrow>
                  (case summarize_chunks llama chunks ([], []) w of
                     (Inl e, w') \<Rightarrow> Some (Inl e, w')
                   | (Inr (bs, summary_paragraphs), w') \<Rightarrow>
                       Some (Inr \<lparr>bullets = py_slice bs 0 5,
                                  summary = (if summary_paragraphs \<noteq> []
                                             then py_slice (py_join '' '' summary_paragraphs) 0 800
                                             else [])\<rparr>, w'))))"

section \<open>The generation invoker: \<open>LlamaWrapper.generate\<close> in \<open>edunote_llm/llama_wrapper.py\<close>\<close>

text \<open>
  \<open>subprocess.run(cmd, capture_output=True, text=True)\<close> is a parameter: it takes the
  argument list and the state of the world, and returns the completed process (or the
  error it raised) with the new state of the world. The sampling parameters
  \<open>temperature\<close> and \<open>top_p\<close> are floating-point numbers; their type and their
  rendering \<open>str\<close> are parameters.
\<close>

record completed_process =
  returncode :: int
  stdout :: string
  stderr :: string

type_synonym 'w subprocess_run = "string list \<Rightarrow> 'w \<Rightarrow> (error + completed_process) \<times> 'w"

text \<open>
  A \<open>LlamaWrapper\<close> holds the resolved paths of the model file and of the binary; the
  record holds their renderings \<open>str(self.model_path)\<close> and \<open>str(self.binary_path)\<close>.
\<close>

record llama_wrapper =
  model_path :: string
  binary_path :: string

fun after_first_blank :: "string list \<Rightarrow> string list option" where
  \<comment> \<open>The lines after the first line that is empty once trimmed, if there is one.\<close>
  "after_first_blank [] = None"
| "after_first_blank (l # ls) = (if py_strip l = [] then Some ls else after_first_blank ls)"

definition parse_output :: "string \<Rightarrow> string" where
  \<comment> \<open>\<open>LlamaWrapper._parse_output\<close>\<close>
  "parse_output out =
     (case after_first_blank (splitlines out) of
        Some rest \<Rightarrow> py_strip (py_join [CHR 0x0A] rest)
      | None \<Rightarrow> py_strip out)"

definition generate_cmd ::
  "('f \<Rightarrow> string) \<Rightarrow> llama_wrapper \<Rightarrow> string \<Rightarrow> int \<Rightarrow> 'f \<Rightarrow> int \<Rightarrow> 'f \<Rightarrow> string list" where
  \<comment> \<open>The list \<open>cmd\<close> built by \<open>generate\<close>.\<close>
  "generate_cmd str_float self prompt n_predict temperature top_k top_p =
     [binary_path self,
      ''-m'', model_path self,
      ''-p'', prompt,
      ''-n'', str_int n_predict,
      ''--temp'', str_float temperature,
      ''--top-k'', str_int top_k,
      ''--top-p'', str_float top_p]"

definition generate ::
  "'w subprocess_run \<Rightarrow> ('f \<Rightarrow> string) \<Rightarrow> llama_wrapper \<Rightarrow> string \<Rightarrow> int \<Rightarrow> 'f \<Rightarrow> int \<Rightarrow> 'f
     \<Rightarrow> 'w \<Rightarrow> (error + string) \<times> 'w" where
  "generate run str_float self prompt n_predict temperature top_k top_p w =
     (case run (generate_cmd str_float self prompt n_predict temperature top_k top_p) w of
        (Inl e, w') \<Rightarrow> (Inl e, w')
      | (Inr proc, w') \<Rightarrow>
          if returncode proc \<noteq> 0
          then (Inl (RuntimeError (''llama-cli failed (rc='' @ str_int (returncode proc)
                                   @ ''):\<newline>'' @ stderr proc)), w')
          else (Inr (parse_output (stdout proc)), w'))"

section \<open>The one-shot runner: \<open>run_llama_once\<close> in \<open>app/llama_runner.py\<close>\<close>

text \<open>
  \<open>run_llama_once\<close> builds its command as one string, quoting the model path and the
  prompt with \<open>shlex.quote\<close>, and cuts it into the argument list with \<open>shlex.split\<close>.
  Both are functions of Python's standard library, modelled here after its \<open>shlex\<close>
  module, for a lexer as \<open>shlex.split\<close> sets it up: POSIX mode, \<open>whitespace_split\<close>
  set, no comment characters, no punctuation characters.
\<close>

definition is_safe_char :: "char \<Rightarrow> bool" where
  \<comment> \<open>A character outside the class \<open>[^\w@%+=:,./-]\<close> (ASCII) of \<open>_find_unsafe\<close>.\<close>
  "is_safe_char c =
     (let n = (of_char c :: nat)
      in (48 \<le> n \<and> n \<le> 57) \<or> (65 \<le> n \<and> n \<le> 90) \<or> (97 \<le> n \<and> n \<le> 122)
         \<or> c \<in> set ''_@%+=:,./-'')"

definition shlex_quote :: "string \<Rightarrow> string" where
  \<comment> \<open>\<open>shlex.quote(s)\<close>: single quotes around \<open>s\<close>, each single quote of \<open>s\<close> replaced
      by a closing quote, a double-quoted single quote and an opening quote.\<close>
  "shlex_quote s =
     (if s = [] then [CHR 0x27, CHR 0x27]
      else if list_all is_safe_char s then s
      else [CHR 0x27]
           @ concat (map (\<lambda>c. if c = CHR 0x27
                                then [CHR 0x27, CHR 0x22, CHR 0x27, CHR 0x22, CHR 0x27]
                                else [c]) s)
           @ [CHR 0x27])"

datatype lex_state =
    Past_EOF \<comment> \<open>\<open>state is None\<close>\<close>
  | In_space \<comment> \<open>\<open>state == ' '\<close>\<close>
  | In_word \<comment> \<open>\<open>state == 'a'\<close>\<close>
  | In_quote char \<comment> \<open>\<open>state\<close> is the quote character that opened the quotation\<close>
  | In_escape \<comment> \<open>\<open>state\<close> is the escape character\<close>

definition whitespace :: string where
  "whitespace = [CHR '' '', CHR 0x09, CHR 0x0D, CHR 0x0A]"

definition quotes :: string where
  "quotes = [CHR 0x27, CHR 0x22]"

definition escape :: string where
  "escape = [CHR 0x5C]"

definition escapedquotes :: string where
  "escapedquotes = [CHR 0x22]"

definition is_wordchar :: "char \<Rightarrow> bool" where
  \<comment> \<open>\<open>wordchars\<close> in POSIX mode: ASCII letters, digits, the underscore, and the
      letters of Latin-1.\<close>
  "is_wordchar c =
     (let n = (of_char c :: nat)
      in (48 \<le> n \<and> n \<le> 57) \<or> (65 \<le> n \<and> n \<le> 90) \<or> (97 \<le> n \<and> n \<le> 122) \<or> n = 95
         \<or> (192 \<le> n \<and> n \<le> 255 \<and> n \<noteq> 215 \<and> n \<noteq> 247))"

definition emit ::
  "string \<Rightarrow> bool \<Rightarrow> lex_state \<Rightarrow> string \<Rightarrow> error + (string option \<times> lex_state \<times> string)" where
  \<comment> \<open>Leaving the loop of \<open>read_token\<close>: the result is \<open>None\<close> for an empty token that
      was not quoted; the lexer keeps its state and the rest of the input.\<close>
  "emit token quoted st rest =
     Inr (if \<not> quoted \<and> token = [] then None else Some token, st, rest)"

fun read_token ::
  "lex_state \<Rightarrow> string \<Rightarrow> bool \<Rightarrow> lex_state \<Rightarrow> string
     \<Rightarrow> error + (string option \<times> lex_state \<times> string)" where
  \<comment> \<open>\<open>shlex.read_token\<close>, from the lexer's state, the token so far, the flag \<open>quoted\<close>,
      \<open>escapedstate\<close> and the unread input. Each pass reads one character; at the end of
      the input the character read is empty.\<close>
  "read_token st token quoted escapedstate [] =
     (case st of
        Past_EOF \<Rightarrow> emit [] quoted Past_EOF []
      | In_space \<Rightarrow> emit token quoted Past_EOF []
      | In_quote q \<Rightarrow> Inl (ValueError ''No closing quotation'')
      | In_escape \<Rightarrow> Inl (ValueError ''No escaped character'')
      | In_word \<Rightarrow> emit token quoted Past_EOF [])"
| "read_token st token quoted escapedstate (c # cs) =
     (case st of
        Past_EOF \<Rightarrow> emit [] quoted Past_EOF cs
      | In_space \<Rightarrow>
          if c \<in> set whitespace then
            (if token \<noteq> [] \<or> quoted then emit token quoted In_space cs
             else read_token In_space token quoted escapedstate cs)
          else if c \<in> set escape then read_token In_escape token quoted In_word cs
          else if is_wordchar c then read_token In_word [c] quoted escapedstate cs
          else if c \<in> set quotes then read_token (In_quote c) token quoted escapedstate cs
          else read_token In_word [c] quoted escapedstate cs
      | In_quote q \<Rightarrow>
          if c = q then read_token In_word token True escapedstate cs
          else if c \<in> set escape \<and> q \<in> set escapedquotes
               then read_token In_escape token True (In_quote q) cs
               else read_token (In_quote q) (token @ [c]) True escapedstate cs
      | In_escape \<Rightarrow>
          read_token escapedstate
            ((case escapedstate of
                In_quote q \<Rightarrow> if c \<notin> set escape \<and> c \<noteq> q then token @ escape else token
              | _ \<Rightarrow> token) @ [c])
            quoted escapedstate cs
      | In_word \<Rightarrow>
          if c \<in> set whitespace then
            (if token \<noteq> [] \<or> quoted then emit token quoted In_space cs
             else read_token In_space token quoted escapedstate cs)
          else if c \<in> set quotes then read_token (In_quote c) token quoted escapedstate cs
          else if c \<in> set escape then read_token In_escape token quoted In_word cs
          else read_token In_word (token @ [c]) quoted escapedstate cs)"

partial_function (option) shlex_tokens ::
  "lex_state \<Rightarrow> string \<Rightarrow> string list \<Rightarrow> (error + string list) option" where
  \<comment> \<open>\<open>list(lex)\<close>: tokens are read until \<open>read_token\<close> returns \<open>None\<close>.\<close>
  "shlex_tokens st input acc =
     (case read_token st [] False In_space input of
        Inl e \<Rightarrow> Some (Inl e)
      | Inr r \<Rightarrow>
          (case fst r of
             None \<Rightarrow> Some (Inr acc)
           | Some t \<Rightarrow> shlex_tokens (fst (snd r)) (snd (snd r)) (acc @ [t])))"

declare shlex_tokens.simps [code]

definition shlex_split :: "string \<Rightarrow> (error + string list) option" where
  \<comment> \<open>\<open>shlex.split(s)\<close>; \<open>None\<close> stands for an iteration that never ends.\<close>
  "shlex_split s = shlex_tokens In_space s []"

definition LLAMA_MAIN_BIN :: string where
  "LLAMA_MAIN_BIN = ''./main''"

definition MODEL_PATH :: string where
  "MODEL_PATH = ''models/tinyllama.gguf''"

definition model_or_default :: "string option \<Rightarrow> string" where
  \<comment> \<open>\<open>model_path or MODEL_PATH\<close>, for the optional argument \<open>model_path\<close>.\<close>
  "model_or_default model_arg =
     (case model_arg of
        Some m \<Rightarrow> if m \<noteq> [] then m else MODEL_PATH
      | None \<Rightarrow> MODEL_PATH)"

definition run_llama_once ::
  "'w subprocess_run \<Rightarrow> (string \<Rightarrow> 'w \<Rightarrow> bool) \<Rightarrow> string \<Rightarrow> string option \<Rightarrow> int \<Rightarrow> 'w
     \<Rightarrow> ((error + string) \<times> 'w) option" where
  \<comment> \<open>\<open>path_exists\<close> is \<open>Path(model).exists()\<close>, a parameter; \<open>model_arg\<close> is the
      argument \<open>model_path\<close>. \<open>None\<close> stands for a lexer that never returns.\<close>
  "run_llama_once run path_exists prompt model_arg n_predict w =
     (let model = model_or_default model_arg
      in if \<not> path_exists model w then
           Some (Inl (FileNotFoundError (''Model file not found at '' @ model
                        @ ''. Place a quantized model there.'')), w)
         else
           (let cmd = LLAMA_MAIN_BIN @ '' -m '' @ shlex_quote model
                      @ '' -p '' @ shlex_quote prompt @ '' -n '' @ str_int n_predict
            in case shlex_split cmd of
                 None \<Rightarrow> None
               | Some (Inl e) \<Rightarrow> Some (Inl e, w)
               | Some (Inr argv) \<Rightarrow>
                   (case run argv w of
                      (Inl e, w') \<Rightarrow> Some (Inl e, w')
                    | (Inr result, w') \<Rightarrow>
                        if returncode result \<noteq> 0
                        then Some (Inl (RuntimeError (''llama.cpp failed: ''
                                          @ py_strip (stderr result))), w')
                        else Some (Inr (py_strip (stdout result)), w'))))"

section \<open>Vocabulary of the stated properties\<close>

subsection \<open>Predicates used to state the chunker's properties\<close>

fun contiguous :: "int \<Rightarrow> int \<Rightarrow> (int \<times> int) list \<Rightarrow> bool" where
  \<comment> \<open>The pairs are non-empty intervals that tile \<open>[a, b)\<close> from left to right.\<close>
  "contiguous a b [] = (a = b)"
| "contiguous a b ((x, y) # bs) = (x = a \<and> a < y \<and> contiguous y b bs)"

definition slices :: "string \<Rightarrow> (int \<times> int) list \<Rightarrow> string list" where
  "slices text bs = map (\<lambda>(a, b). py_slice text a b) bs"

subsection \<open>A predicate used to state the quiz parser's properties\<close>

definition discarded_line :: "string \<Rightarrow> bool" where
  \<comment> \<open>The line reaches the third branch of the loop body: it holds \<open>(Answer:\<close> and is
      neither a question line nor an option line.\<close>
  "discarded_line l =
     (py_contains ''(Answer:'' l \<and> \<not> is_question_line l \<and> \<not> is_option_line l)"

subsection \<open>Functions used to state the summary pipeline's properties\<close>

text \<open>
  \<open>bullet_of_line\<close> is the bullet text that a line offers, if any; \<open>first_occurrences\<close>
  keeps the first occurrence of every element of a list, in order; \<open>llama_texts\<close> is
  the list of texts that the generator returns when it is called on the summary prompts of
  the given chunks, one after the other, if every call succeeds.
\<close>

definition bullet_of_line :: "string \<Rightarrow> string option" where
  "bullet_of_line line0 =
     (let line = py_strip line0; b = py_strip (py_lstrip_chars line ''- '')
      in if startswith line ''-'' \<and> b \<noteq> [] then Some b else None)"

definition bullet_candidates :: "string \<Rightarrow> string list" where
  "bullet_candidates out = List.map_filter bullet_of_line (splitlines out)"

fun first_occurrences :: "'a list \<Rightarrow> 'a list" where
  "first_occurrences [] = []"
| "first_occurrences (x # xs) = x # removeAll x (first_occurrences xs)"

fun llama_texts :: "'w llama \<Rightarrow> string list \<Rightarrow> 'w \<Rightarrow> (string list \<times> 'w) option" where
  "llama_texts llama [] w = Some ([], w)"
| "llama_texts llama (c # cs) w =
     (case llama (SUMMARY_PROMPT c) 256 w of
        (Inl e, w') \<Rightarrow> None
      | (Inr out, w') \<Rightarrow>
          (case llama_texts llama cs w' of
             None \<Rightarrow> None
           | Some (outs, w'') \<Rightarrow> Some (out # outs, w'')))"

subsection \<open>Functions used to state the properties of the lexer\<close>

text \<open>
  A plain character is neither whitespace nor a quote nor the escape character of the
  lexer; \<open>quote_char\<close> is the replacement that \<open>shlex_quote\<close> applies to one
  character inside the single quotes.
\<close>

definition plain_char :: "char \<Rightarrow> bool" where
  "plain_char c = (c \<notin> set whitespace \<and> c \<notin> set quotes \<and> c \<notin> set escape)"

definition quote_char :: "char \<Rightarrow> string" where
  "quote_char c = (if c = CHR 0x27 then [CHR 0x27, CHR 0x22, CHR 0x27, CHR 0x22, CHR 0x27] else [c])"

section \<open>Properties of the chunker\<close>

lemma rindex_Some: "rindex c xs = Some i \<Longrightarrow> i < length xs \<and> xs ! i = c"
  by (induction xs arbitrary: i) (auto split: option.splits if_splits)

lemma py_rfind_range:
  assumes "0 \<le> a"
  shows "py_rfind s c a b = - 1 \<or>
         (a \<le> py_rfind s c a b \<and> py_rfind s c a b < adjust_index (int (length s)) b)"
proof (cases "rindex c (take (nat (adjust_index (int (length s)) b - a)) (drop (nat a) s))")
  case None
  then show ?thesis using assms by (simp add: py_rfind_def Let_def)
next
  case (Some i)
  from rindex_Some[OF Some] have "i < nat (adjust_index (int (length s)) b - a)" by simp
  then show ?thesis using assms Some by (simp add: py_rfind_def Let_def)
qed

lemma split_index_progress:
  assumes "0 \<le> start" "start < int (length txt)" "0 < max_chars"
  shows "start < split_index txt max_chars start"
    and "split_index txt max_chars start \<le> min (start + max_chars) (int (length txt))"
proof -
  let ?L = "int (length txt)"
  let ?e = "min (start + max_chars) ?L"
  have e: "adjust_index ?L ?e = ?e" "start < ?e"
    using assms by (auto simp: adjust_index_def)
  have n: "py_rfind txt (CHR 0x0A) start ?e \<le> start \<or>
           (start < py_rfind txt (CHR 0x0A) start ?e \<and> py_rfind txt (CHR 0x0A) start ?e < ?e)"
    using py_rfind_range[OF assms(1), of "txt" "CHR 0x0A" "?e"] e assms(1) by auto
  have d: "py_rfind txt (CHR ''.'') start ?e \<le> start \<or>
           (start < py_rfind txt (CHR ''.'') start ?e \<and> py_rfind txt (CHR ''.'') start ?e < ?e)"
    using py_rfind_range[OF assms(1), of "txt" "CHR ''.''" "?e"] e assms(1) by auto
  show "start < split_index txt max_chars start"
    using n d e by (auto simp: split_index_def Let_def)
  show "split_index txt max_chars start \<le> ?e"
    using n d e by (auto simp: split_index_def Let_def)
qed

lemma split_index_fallback:
  assumes "py_rfind txt (CHR 0x0A) start (min (start + max_chars) (int (length txt))) \<le> start"
      and "py_rfind txt (CHR ''.'') start (min (start + max_chars) (int (length txt))) \<le> start"
  shows "split_index txt max_chars start = min (start + max_chars) (int (length txt))"
  using assms by (simp add: split_index_def Let_def)

lemma py_slice_append:
  assumes "0 \<le> a" "a \<le> b" "b \<le> c" "c \<le> int (length s)"
  shows "py_slice s a b @ py_slice s b c = py_slice s a c"
proof -
  have "take (nat (b - a)) (drop (nat a) s) @ take (nat (c - b)) (drop (nat b) s)
        = take (nat (c - a)) (drop (nat a) s)"
  proof -
    have "nat b = nat a + nat (b - a)" "nat (c - a) = nat (b - a) + nat (c - b)"
      using assms by auto
    then show ?thesis by (metis drop_drop add.commute take_add)
  qed
  then show ?thesis using assms by (simp add: py_slice_def adjust_index_def Let_def)
qed

lemma py_slice_empty: "0 \<le> a \<Longrightarrow> py_slice s a a = []"
  by (simp add: py_slice_def Let_def)

lemma py_slice_all: "py_slice s 0 (int (length s)) = s"
  by (simp add: py_slice_def adjust_index_def Let_def)

lemma chunk_loop_cover:
  assumes "0 < m" "0 \<le> start" "start \<le> int (length t)"
  shows "\<exists>bs. contiguous start (int (length t)) bs
            \<and> list_all (\<lambda>(a, b). b = split_index t m a) bs
            \<and> chunk_loop t m start acc = Some (acc @ map py_strip (slices t bs))
            \<and> concat (slices t bs) = py_slice t start (int (length t))"
  using assms
proof (induction "nat (int (length t) - start)" arbitrary: start acc rule: less_induct)
  case less
  show ?case
  proof (cases "start < int (length t)")
    case False
    then have "start = int (length t)" using less.prems by simp
    then show ?thesis
      by (intro exI[of _ "[]"]) (simp add: chunk_loop.simps slices_def py_slice_empty)
  next
    case True
    let ?s = "split_index t m start"
    let ?acc = "acc @ [py_strip (py_slice t start ?s)]"
    have p: "start < ?s" "?s \<le> int (length t)"
      using split_index_progress[OF less.prems(2) True less.prems(1)] by auto
    have "nat (int (length t) - ?s) < nat (int (length t) - start)" using p by linarith
    moreover have "0 \<le> ?s" using p less.prems by simp
    ultimately have "\<exists>bs. contiguous ?s (int (length t)) bs
            \<and> list_all (\<lambda>(a, b). b = split_index t m a) bs
            \<and> chunk_loop t m ?s ?acc = Some (?acc @ map py_strip (slices t bs))
            \<and> concat (slices t bs) = py_slice t ?s (int (length t))"
      using less.hyps less.prems(1) p(2) by blast
    then obtain bs where bs: "contiguous ?s (int (length t)) bs"
        "list_all (\<lambda>(a, b). b = split_index t m a) bs"
        "chunk_loop t m ?s ?acc = Some (?acc @ map py_strip (slices t bs))"
        "concat (slices t bs) = py_slice t ?s (int (length t))"
      by blast
    have c: "chunk_loop t m start acc = chunk_loop t m ?s ?acc"
      using True by (subst chunk_loop.simps) simp
    have "py_slice t start ?s @ py_slice t ?s (int (length t)) = py_slice t start (int (length t))"
      using py_slice_append[of start ?s "int (length t)" t] p less.prems by simp
    then show ?thesis using bs c p
      by (intro exI[of _ "(start, ?s) # bs"]) (simp add: slices_def)
  qed
qed

lemma simple_chunk_text_returns:
  assumes "0 < max_chars"
  shows "\<exists>chunks. simple_chunk_text s max_chars = Some chunks"
proof (cases "py_strip s = []")
  case True
  then show ?thesis by (simp add: simple_chunk_text_def)
next
  case False
  from chunk_loop_cover[OF assms, of 0 "py_strip s" "[]"]
  obtain bs where
    "chunk_loop (py_strip s) max_chars 0 [] = Some ([] @ map py_strip (slices (py_strip s) bs))"
    by auto
  then show ?thesis using False by (simp add: simple_chunk_text_def)
qed

text \<open>
  Claim C1. For every input text and every positive \<open>max_chars\<close> the chunker returns, and
  every pass through the loop moves the cursor strictly forward: at every cursor position
  inside the trimmed text the split point is strictly greater than the cursor and at most
  the window end, and when neither the newline search nor the period search gives a
  position after the cursor, the split point is the window end.
\<close>

theorem chunk_terminates_and_progresses:
  assumes "0 < max_chars"
  shows "(\<exists>chunks. simple_chunk_text txt max_chars = Some chunks)
       \<and> (\<forall>start. 0 \<le> start \<and> start < int (length (py_strip txt)) \<longrightarrow>
             start < split_index (py_strip txt) max_chars start
           \<and> split_index (py_strip txt) max_chars start
               \<le> min (start + max_chars) (int (length (py_strip txt)))
           \<and> (py_rfind (py_strip txt) (CHR 0x0A) start
                  (min (start + max_chars) (int (length (py_strip txt)))) \<le> start
              \<and> py_rfind (py_strip txt) (CHR ''.'') start
                  (min (start + max_chars) (int (length (py_strip txt)))) \<le> start
              \<longrightarrow> split_index (py_strip txt) max_chars start
                    = min (start + max_chars) (int (length (py_strip txt)))))"
proof (intro conjI allI impI)
  show "\<exists>chunks. simple_chunk_text txt max_chars = Some chunks"
  proof (cases "py_strip txt = []")
    case True
    then show ?thesis by (simp add: simple_chunk_text_def)
  next
    case False
    from chunk_loop_cover[OF assms, of 0 "py_strip txt" "[]"]
    obtain bs where "chunk_loop (py_strip txt) max_chars 0 [] = Some ([] @ map py_strip (slices (py_strip txt) bs))"
      by auto
    then show ?thesis using False by (simp add: simple_chunk_text_def)
  qed
next
  fix start
  assume a: "0 \<le> start \<and> start < int (length (py_strip txt))"
  show "start < split_index (py_strip txt) max_chars start"
    using split_index_progress(1)[of start "py_strip txt" max_chars] a assms by simp
  show "split_index (py_strip txt) max_chars start
          \<le> min (start + max_chars) (int (length (py_strip txt)))"
    using split_index_progress(2)[of start "py_strip txt" max_chars] a assms by simp
next
  fix start
  assume "py_rfind (py_strip txt) (CHR 0x0A) start
            (min (start + max_chars) (int (length (py_strip txt)))) \<le> start
        \<and> py_rfind (py_strip txt) (CHR ''.'') start
            (min (start + max_chars) (int (length (py_strip txt)))) \<le> start"
  then show "split_index (py_strip txt) max_chars start
               = min (start + max_chars) (int (length (py_strip txt)))"
    using split_index_fallback by blast
qed

text \<open>
  The same at the input named by the claim, a single run of 10000 non-whitespace
  characters with the window of 3200 characters that both request handlers pass, and,
  evaluated, at a run of ten characters with a window of four: neither search finds a
  separator, the first split point is the window end, and the chunks are cut there.
\<close>

theorem chunk_terminates_and_progresses_witness:
  "(0::int) < 3200
   \<and> (\<exists>chunks. simple_chunk_text (replicate 10000 (CHR ''x'')) 3200 = Some chunks)
   \<and> (0::int) < 4
   \<and> (0::int) < int (length (py_strip ''xxxxxxxxxx''))
   \<and> py_rfind (py_strip ''xxxxxxxxxx'') (CHR 0x0A) 0
         (min (0 + 4) (int (length (py_strip ''xxxxxxxxxx'')))) \<le> 0
   \<and> py_rfind (py_strip ''xxxxxxxxxx'') (CHR ''.'') 0
         (min (0 + 4) (int (length (py_strip ''xxxxxxxxxx'')))) \<le> 0
   \<and> 0 < split_index (py_strip ''xxxxxxxxxx'') 4 0
   \<and> split_index (py_strip ''xxxxxxxxxx'') 4 0
       = min (0 + 4) (int (length (py_strip ''xxxxxxxxxx'')))
   \<and> simple_chunk_text ''xxxxxxxxxx'' 4 = Some [''xxxx'', ''xxxx'', ''xx'']"
proof -
  have h: "(0::int) < 3200" by simp
  have h4: "(0::int) < 4" by simp
  have l: "(0::int) < int (length (py_strip ''xxxxxxxxxx''))" by code_simp
  have n: "py_rfind (py_strip ''xxxxxxxxxx'') (CHR 0x0A) 0
             (min (0 + 4) (int (length (py_strip ''xxxxxxxxxx'')))) \<le> 0"
    by code_simp
  have d: "py_rfind (py_strip ''xxxxxxxxxx'') (CHR ''.'') 0
             (min (0 + 4) (int (length (py_strip ''xxxxxxxxxx'')))) \<le> 0"
    by code_simp
  have v: "simple_chunk_text ''xxxxxxxxxx'' 4 = Some [''xxxx'', ''xxxx'', ''xx'']"
    by code_simp
  from chunk_terminates_and_progresses[OF h, of "replicate 10000 (CHR ''x'')"]
  have big: "\<exists>chunks. simple_chunk_text (replicate 10000 (CHR ''x'')) 3200 = Some chunks"
    by blast
  from chunk_terminates_and_progresses[OF h4, of "''xxxxxxxxxx''"] l n d
  have small: "0 < split_index (py_strip ''xxxxxxxxxx'') 4 0
      \<and> split_index (py_strip ''xxxxxxxxxx'') 4 0
          = min (0 + 4) (int (length (py_strip ''xxxxxxxxxx'')))"
    by force
  show ?thesis using h h4 l n d v big small by blast
qed

text \<open>
  Claim C2. For every input text (and positive \<open>max_chars\<close>, for which the chunker
  returns) there is a list of index pairs \<open>(cursor, split_point)\<close>, each split point being
  the one the loop body computes at that cursor, that tile the trimmed text from 0 to its
  length by non-empty, adjacent intervals in increasing order; the emitted chunks are the
  trimmed slices at these pairs, in this order, and the untrimmed slices concatenate to the
  trimmed input.
\<close>

theorem chunk_covers_trimmed_input:
  assumes "0 < max_chars"
  shows "\<exists>bs. contiguous 0 (int (length (py_strip txt))) bs
            \<and> list_all (\<lambda>(a, b). b = split_index (py_strip txt) max_chars a) bs
            \<and> simple_chunk_text txt max_chars = Some (map py_strip (slices (py_strip txt) bs))
            \<and> concat (slices (py_strip txt) bs) = py_strip txt"
proof (cases "py_strip txt = []")
  case True
  then show ?thesis
    by (intro exI[of _ "[]"]) (simp add: simple_chunk_text_def slices_def)
next
  case False
  from chunk_loop_cover[OF assms, of 0 "py_strip txt" "[]"]
  obtain bs where "contiguous 0 (int (length (py_strip txt))) bs"
      "list_all (\<lambda>(a, b). b = split_index (py_strip txt) max_chars a) bs"
      "chunk_loop (py_strip txt) max_chars 0 [] = Some ([] @ map py_strip (slices (py_strip txt) bs))"
      "concat (slices (py_strip txt) bs) = py_slice (py_strip txt) 0 (int (length (py_strip txt)))"
    by auto
  then show ?thesis using False
    by (intro exI[of _ bs]) (simp add: simple_chunk_text_def py_slice_all)
qed

theorem chunk_covers_trimmed_input_witness:
  "(0::int) < 8
   \<and> (\<exists>bs. contiguous 0 (int (length (py_strip ''  hello. world. foo bar ''))) bs
          \<and> list_all (\<lambda>(a, b). b = split_index (py_strip ''  hello. world. foo bar '') 8 a) bs
          \<and> simple_chunk_text ''  hello. world. foo bar '' 8
              = Some (map py_strip (slices (py_strip ''  hello. world. foo bar '') bs))
          \<and> concat (slices (py_strip ''  hello. world. foo bar '') bs)
              = py_strip ''  hello. world. foo bar '')
   \<and> simple_chunk_text ''  hello. world. foo bar '' 8
       = Some [''hello'', ''. world'', ''. foo ba'', ''r'']"
proof -
  have h: "(0::int) < 8" by simp
  have v: "simple_chunk_text ''  hello. world. foo bar '' 8
             = Some [''hello'', ''. world'', ''. foo ba'', ''r'']"
    by code_simp
  from chunk_covers_trimmed_input[OF h, of "''  hello. world. foo bar ''"]
  show ?thesis using h v by blast
qed

text \<open>
  Claim C8. Emitted chunks are not always non-empty: on the four characters
  \<open>a\<close>, newline, newline, \<open>b\<close> with a window of 2 the chunker emits the empty string
  as its second chunk, the untrimmed slice there being a single newline.
\<close>

theorem chunk_may_emit_empty_chunk:
  "simple_chunk_text [CHR ''a'', CHR 0x0A, CHR 0x0A, CHR ''b''] 2 = Some [''a'', [], ''b'']
   \<and> (\<exists>txt max_chars chunks.
         txt \<noteq> [] \<and> 0 < max_chars
       \<and> simple_chunk_text txt max_chars = Some chunks \<and> [] \<in> set chunks)"
proof -
  have v: "simple_chunk_text [CHR ''a'', CHR 0x0A, CHR 0x0A, CHR ''b''] 2
             = Some [''a'', [], ''b'']"
    by code_simp
  have "[CHR ''a'', CHR 0x0A, CHR 0x0A, CHR ''b''] \<noteq> [] \<and> (0::int) < 2
        \<and> simple_chunk_text [CHR ''a'', CHR 0x0A, CHR 0x0A, CHR ''b''] 2
            = Some [''a'', [], ''b'']
        \<and> [] \<in> set [''a'', [], ''b'']"
    using v by simp
  then show ?thesis using v by blast
qed

section \<open>Properties of the quiz parser\<close>

lemma split_from_zero: "split_from sep 0 cur s = [rev cur @ s]"
proof (induction s arbitrary: cur)
  case Nil
  show ?case by (subst split_from.simps) simp
next
  case (Cons c cs)
  show ?case by (subst split_from.simps) (simp add: Cons)
qed

lemma split_from_nonempty: "split_from sep n cur s \<noteq> []"
  by (induction sep n cur s rule: split_from.induct) (subst split_from.simps, simp)

lemma py_index_last: "xs \<noteq> [] \<Longrightarrow> py_index xs (- 1) = Inr (last xs)"
  by (cases xs rule: rev_cases) (auto simp: py_index_def Let_def nth_append)

lemma py_contains_length: "py_contains sub s \<Longrightarrow> length sub \<le> length s"
  by (induction s) (auto dest: prefix_length_le)

lemma py_contains_split:
  assumes "py_contains sep s" "sep \<noteq> []"
  shows "\<exists>pre post. s = pre @ sep @ post \<and> \<not> py_contains sep (pre @ butlast sep)
                  \<and> split_from sep 1 cur s = [rev cur @ pre, post]"
  using assms
proof (induction s arbitrary: cur)
  case Nil
  then show ?case by simp
next
  case (Cons c cs)
  show ?case
  proof (cases "prefix sep (c # cs)")
    case True
    then obtain post where post: "c # cs = sep @ post" by (auto simp: prefix_def)
    have "\<not> py_contains sep (butlast sep)"
      using py_contains_length[of sep "butlast sep"] Cons.prems(2) by (auto simp: length_greater_0_conv[symmetric] simp del: length_greater_0_conv)
    moreover have "split_from sep 1 cur (c # cs) = [rev cur, post]"
      using True Cons.prems(2) post by (subst split_from.simps) (simp add: split_from_zero)
    ultimately show ?thesis using post by (intro exI[of _ "[]"] exI[of _ post]) simp
  next
    case False
    then have "py_contains sep cs" using Cons.prems by simp
    from Cons.IH[OF this Cons.prems(2), of "c # cur"] obtain pre post where
      pp: "cs = pre @ sep @ post" "\<not> py_contains sep (pre @ butlast sep)"
          "split_from sep 1 (c # cur) cs = [rev (c # cur) @ pre, post]" by blast
    have "split_from sep 1 cur (c # cs) = [rev cur @ c # pre, post]"
      using False pp(3) by (subst split_from.simps) simp
    moreover have "\<not> py_contains sep ((c # pre) @ butlast sep)"
    proof -
      have "prefix (c # pre @ butlast sep) (c # cs)"
        using pp(1) Cons.prems(2) by (metis Cons_prefix_Cons append_butlast_last_id append.assoc prefixI same_prefix_prefix)
      then have "\<not> prefix sep (c # pre @ butlast sep)"
        using False prefix_order.trans by blast
      then show ?thesis using pp(2) by simp
    qed
    ultimately show ?thesis using pp(1)
      by (intro exI[of _ "c # pre"] exI[of _ post]) simp
  qed
qed

lemma py_index_second: "py_index [x, y] 1 = Inr y"
  by (simp add: py_index_def)

lemma quiz_step_answer_line:
  assumes "py_contains ''(Answer:'' l" "\<not> is_question_line l" "\<not> is_option_line l"
  shows "\<exists>pre post. l = pre @ ''(Answer:'' @ post
           \<and> \<not> py_contains ''(Answer:'' (pre @ ''(Answer'')
           \<and> quiz_step (qs, Some q) l
               = Inr (qs, Some (q\<lparr>answer := Some (py_strip_chars post '' )'')\<rparr>))"
proof -
  from py_contains_split[OF assms(1), of "[]"]
  obtain pre post where pp: "l = pre @ ''(Answer:'' @ post"
      "\<not> py_contains ''(Answer:'' (pre @ butlast ''(Answer:'')"
      "split_from ''(Answer:'' 1 [] l = [pre, post]"
    by auto
  have "quiz_step (qs, Some q) l
          = Inr (qs, Some (q\<lparr>answer := Some (py_strip_chars post '' )'')\<rparr>))"
    using assms pp(3) by (simp add: quiz_step_def py_split_def py_index_second)
  then show ?thesis using pp(1,2) by auto
qed

lemma quiz_step_discards:
  assumes "py_contains ''(Answer:'' l" "\<not> is_question_line l" "\<not> is_option_line l"
  shows "quiz_step (qs, None) l = Inr (qs, None)"
  using assms by (simp add: quiz_step_def)

lemma quiz_step_opens:
  assumes "\<not> discarded_line l"
  shows "\<exists>q. quiz_step (qs, None) l = Inr (qs, Some q)"
proof -
  have s: "py_index (split_from ''Answer:'' (- 1) [] l) (- 1) = Inr (last (split_from ''Answer:'' (- 1) [] l))"
    by (rule py_index_last) (rule split_from_nonempty)
  show ?thesis using assms s
    by (auto simp: quiz_step_def discarded_line_def py_split_def Let_def)
qed

lemma quiz_step_keeps_open:
  "\<exists>qs' q'. quiz_step (qs, Some q) l = Inr (qs', Some q')"
proof -
  have s: "py_index (split_from ''Answer:'' (- 1) [] l) (- 1) = Inr (last (split_from ''Answer:'' (- 1) [] l))"
    by (rule py_index_last) (rule split_from_nonempty)
  consider (q) "is_question_line l" | (o) "\<not> is_question_line l" "is_option_line l"
    | (a) "\<not> is_question_line l" "\<not> is_option_line l" "py_contains ''(Answer:'' l"
    | (e) "\<not> is_question_line l" "\<not> is_option_line l" "\<not> py_contains ''(Answer:'' l"
    by blast
  then show ?thesis
  proof cases
    case q then show ?thesis by (simp add: quiz_step_def)
  next
    case o then show ?thesis using s by (auto simp: quiz_step_def py_split_def Let_def)
  next
    case a
    from quiz_step_answer_line[OF a(3) a(1) a(2), of qs q] show ?thesis by blast
  next
    case e then show ?thesis by (simp add: quiz_step_def)
  qed
qed

lemma quiz_steps_keep_open:
  "\<exists>qs' q'. quiz_steps (qs, Some q) ls = Inr (qs', Some q')"
proof (induction ls arbitrary: qs q)
  case Nil
  show ?case by simp
next
  case (Cons l ls)
  from quiz_step_keeps_open[of qs q l] obtain qs1 q1 where
    "quiz_step (qs, Some q) l = Inr (qs1, Some q1)" by blast
  then show ?case using Cons.IH[of qs1 q1] by simp
qed

lemma quiz_steps_from_closed:
  "(list_all discarded_line ls \<and> quiz_steps (qs, None) ls = Inr (qs, None))
   \<or> (\<not> list_all discarded_line ls \<and> (\<exists>qs' q'. quiz_steps (qs, None) ls = Inr (qs', Some q')))"
proof (induction ls)
  case Nil
  show ?case by simp
next
  case (Cons l ls)
  show ?case
  proof (cases "discarded_line l")
    case True
    then have "quiz_step (qs, None) l = Inr (qs, None)"
      using quiz_step_discards by (simp add: discarded_line_def)
    then show ?thesis using Cons.IH True by auto
  next
    case False
    from quiz_step_opens[OF False, of qs] obtain q where
      "quiz_step (qs, None) l = Inr (qs, Some q)" by blast
    then show ?thesis using False quiz_steps_keep_open[of qs q ls] by auto
  qed
qed

lemma parse_quiz_cases:
  "(list_all discarded_line (quiz_lines out) \<and> parse_quiz out = Inr [])
   \<or> (\<not> list_all discarded_line (quiz_lines out) \<and> (\<exists>qs. qs \<noteq> [] \<and> parse_quiz out = Inr qs))"
  using quiz_steps_from_closed[of "quiz_lines out" "[]"]
  by (auto simp: parse_quiz_def)

lemma quiz_handler_result:
  assumes "full_text \<noteq> []"
  shows "\<exists>chunk_text.
           quiz (Inr llama) full_text w
             = Some (case llama (QUIZ_PROMPT chunk_text) 512 w of
                       (Inl e, w') \<Rightarrow> (Inl e, w')
                     | (Inr out, w') \<Rightarrow> (quiz_result out, w'))"
proof -
  have "\<exists>chunk. simple_chunk_text full_text 3200 = Some chunk"
    by (rule simple_chunk_text_returns) simp
  then obtain chunk where c: "simple_chunk_text full_text 3200 = Some chunk" by blast
  show ?thesis
    using assms c
    by (intro exI[of _ "if chunk \<noteq> [] then hd chunk else py_slice full_text 0 3200"])
       (simp add: quiz_def Let_def split: prod.splits sum.splits)
qed

text \<open>
  Claim C3, as amended. The quiz parser never raises: on every generated text it returns a
  sequence of questions. The sequence is empty exactly when every trimmed non-empty line
  holds \<open>(Answer:\<close> and is neither a question line nor an option line (in particular when
  there is no such line at all); any other line opens a question. When the sequence is
  empty the handler's response is the raw generated text alone.
\<close>

theorem quiz_empty_iff_all_lines_discarded:
  "(\<exists>qs. parse_quiz out = Inr qs)
   \<and> (parse_quiz out = Inr [] \<longleftrightarrow> list_all discarded_line (quiz_lines out))
   \<and> (parse_quiz out = Inr [] \<longrightarrow> quiz_result out = Inr (QuizRaw out))"
  using parse_quiz_cases[of out] by (auto simp: quiz_result_def)

theorem quiz_empty_iff_all_lines_discarded_witness:
  "list_all discarded_line (quiz_lines ''(Answer: B)\<newline>  \<newline>x (Answer: C)'')
   \<and> parse_quiz ''(Answer: B)\<newline>  \<newline>x (Answer: C)'' = Inr []
   \<and> quiz_result ''(Answer: B)\<newline>  \<newline>x (Answer: C)''
       = Inr (QuizRaw ''(Answer: B)\<newline>  \<newline>x (Answer: C)'')
   \<and> quiz (Inr (\<lambda>prompt n_predict w. (Inr ''(Answer: B)\<newline>  \<newline>x (Answer: C)'', w)))
        ''notes'' ()
       = Some (Inr (QuizRaw ''(Answer: B)\<newline>  \<newline>x (Answer: C)''), ())"
proof -
  have h: "list_all discarded_line (quiz_lines ''(Answer: B)\<newline>  \<newline>x (Answer: C)'')"
    by code_simp
  have v: "quiz (Inr (\<lambda>prompt n_predict w. (Inr ''(Answer: B)\<newline>  \<newline>x (Answer: C)'', w)))
             ''notes'' ()
           = Some (Inr (QuizRaw ''(Answer: B)\<newline>  \<newline>x (Answer: C)''), ())"
    by code_simp
  from quiz_empty_iff_all_lines_discarded[of "''(Answer: B)\<newline>  \<newline>x (Answer: C)''"] h v
  show ?thesis by blast
qed

text \<open>
  Claim C3 as stated fails: the text \<open>hello\<close> has one line, which neither starts with
  \<open>question\<close> nor ends with a question mark, and the parser returns one question whose
  text is that line; the response is then the structured one.
\<close>

theorem quiz_plain_line_opens_question:
  "quiz_lines ''hello'' = [''hello'']
   \<and> \<not> is_question_line ''hello''
   \<and> parse_quiz ''hello'' = Inr [\<lparr>question = ''hello'', options = [], answer = None\<rparr>]
   \<and> quiz_result ''hello''
       = Inr (Quiz [\<lparr>question = ''hello'', options = [], answer = None\<rparr>] ''hello'')"
  by code_simp

text \<open>
  Claim C7, as amended. For every line that holds \<open>(Answer:\<close>, with the opening
  parenthesis, and is neither a question line nor an option line, read while a question is
  open: the open question's answer becomes the text after the first \<open>(Answer:\<close> of the
  line, with the spaces and closing parentheses at both ends removed; its text and options
  stay as they are, and so does the list of committed questions.
\<close>

theorem quiz_answer_line_sets_answer:
  assumes "py_contains ''(Answer:'' l" "\<not> is_question_line l" "\<not> is_option_line l"
  shows "\<exists>pre post. l = pre @ ''(Answer:'' @ post
           \<and> \<not> py_contains ''(Answer:'' (pre @ ''(Answer'')
           \<and> quiz_step (qs, Some q) l
               = Inr (qs, Some (q\<lparr>answer := Some (py_strip_chars post '' )'')\<rparr>))"
  using quiz_step_answer_line[OF assms] by blast

theorem quiz_answer_line_sets_answer_witness:
  "py_contains ''(Answer:'' ''The (Answer: B)''
   \<and> \<not> is_question_line ''The (Answer: B)''
   \<and> \<not> is_option_line ''The (Answer: B)''
   \<and> (\<exists>pre post. ''The (Answer: B)'' = pre @ ''(Answer:'' @ post
           \<and> \<not> py_contains ''(Answer:'' (pre @ ''(Answer'')
           \<and> quiz_step ([], Some \<lparr>question = ''What?'', options = [''A) 1''], answer = None\<rparr>)
                 ''The (Answer: B)''
               = Inr ([], Some (\<lparr>question = ''What?'', options = [''A) 1''], answer = None\<rparr>
                                  \<lparr>answer := Some (py_strip_chars post '' )'')\<rparr>)))
   \<and> quiz_step ([], Some \<lparr>question = ''What?'', options = [''A) 1''], answer = None\<rparr>)
         ''The (Answer: B)''
       = Inr ([], Some \<lparr>question = ''What?'', options = [''A) 1''], answer = Some ''B''\<rparr>)"
proof -
  have h1: "py_contains ''(Answer:'' ''The (Answer: B)''" by code_simp
  have h2: "\<not> is_question_line ''The (Answer: B)''" by code_simp
  have h3: "\<not> is_option_line ''The (Answer: B)''" by code_simp
  have v: "quiz_step ([], Some \<lparr>question = ''What?'', options = [''A) 1''], answer = None\<rparr>)
             ''The (Answer: B)''
           = Inr ([], Some \<lparr>question = ''What?'', options = [''A) 1''], answer = Some ''B''\<rparr>)"
    by code_simp
  from quiz_answer_line_sets_answer[OF h1 h2 h3,
      of "[]" "\<lparr>question = ''What?'', options = [''A) 1''], answer = None\<rparr>"]
  show ?thesis using h1 h2 h3 v by blast
qed

text \<open>
  Claim C7 as stated fails in two ways. The line \<open>Answer: B\<close> holds the marker without
  the parenthesis and is neither a question line nor an option line; read while a question
  is open it leaves that question's answer unset. And the trimming removes spaces and
  closing parentheses only: from the line \<open>x (Answer: B\<close>, a tab, \<open>)\<close> the answer
  recorded is \<open>B\<close> followed by the tab.
\<close>

theorem quiz_bare_answer_marker_ignored:
  "py_contains ''Answer:'' ''Answer: B''
   \<and> \<not> is_option_line ''Answer: B''
   \<and> \<not> is_question_line ''Answer: B''
   \<and> quiz_step ([], Some \<lparr>question = ''What?'', options = [], answer = None\<rparr>) ''Answer: B''
       = Inr ([], Some \<lparr>question = ''What?'', options = [], answer = None\<rparr>)
   \<and> parse_quiz ''What?\<newline>Answer: B''
       = Inr [\<lparr>question = ''What?'', options = [], answer = None\<rparr>]
   \<and> py_contains ''(Answer:'' (''x (Answer: B'' @ [CHR 0x09, CHR '')''])
   \<and> \<not> is_option_line (''x (Answer: B'' @ [CHR 0x09, CHR '')''])
   \<and> \<not> is_question_line (''x (Answer: B'' @ [CHR 0x09, CHR '')''])
   \<and> quiz_step ([], Some \<lparr>question = ''What?'', options = [], answer = None\<rparr>)
         (''x (Answer: B'' @ [CHR 0x09, CHR '')''])
       = Inr ([], Some \<lparr>question = ''What?'', options = [],
                          answer = Some [CHR ''B'', CHR 0x09]\<rparr>)"
  by code_simp

text \<open>
  Claim C9. A line that holds \<open>(Answer:\<close> and is neither a question line nor an option
  line, read while no question is open, changes nothing: no question is opened, and the
  list of committed questions is as before.
\<close>

theorem quiz_answer_line_without_question_discarded:
  assumes "py_contains ''(Answer:'' l" "\<not> is_question_line l" "\<not> is_option_line l"
  shows "quiz_step (qs, None) l = Inr (qs, None)"
  using assms by (simp add: quiz_step_def)

theorem quiz_answer_line_without_question_discarded_witness:
  "py_contains ''(Answer:'' ''(Answer: B)''
   \<and> \<not> is_question_line ''(Answer: B)''
   \<and> \<not> is_option_line ''(Answer: B)''
   \<and> quiz_step ([], None) ''(Answer: B)'' = Inr ([], None)"
proof -
  have h1: "py_contains ''(Answer:'' ''(Answer: B)''" by code_simp
  have h2: "\<not> is_question_line ''(Answer: B)''" by code_simp
  have h3: "\<not> is_option_line ''(Answer: B)''" by code_simp
  from quiz_answer_line_without_question_discarded[OF h1 h2 h3, of "[]"]
  show ?thesis using h1 h2 h3 by blast
qed

section \<open>Properties of the summary pipeline\<close>

lemma summary_line_bullets:
  assumes "summary_line (bs, ps) l = Inr (bs', ps')"
  shows "prefix bs bs' \<and> (distinct bs \<longrightarrow> distinct bs')"
  using assms
  by (auto simp: summary_line_def Let_def split: if_splits sum.splits)

lemma summary_lines_bullets:
  assumes "summary_lines (bs, ps) ls = Inr (bs', ps')"
  shows "prefix bs bs' \<and> (distinct bs \<longrightarrow> distinct bs')"
  using assms
proof (induction ls arbitrary: bs ps)
  case Nil
  then show ?case by simp
next
  case (Cons l ls)
  from Cons.prems obtain bs1 ps1 where
    s: "summary_line (bs, ps) l = Inr (bs1, ps1)" "summary_lines (bs1, ps1) ls = Inr (bs', ps')"
    by (auto split: sum.splits)
  from summary_line_bullets[OF s(1)] Cons.IH[OF s(2)]
  show ?case using prefix_order.trans by blast
qed

lemma summarize_chunks_bullets:
  assumes "summarize_chunks llama cs (bs, ps) w = (Inr (bs', ps'), w')"
  shows "prefix bs bs' \<and> (distinct bs \<longrightarrow> distinct bs')"
  using assms
proof (induction cs arbitrary: bs ps w)
  case Nil
  then show ?case by simp
next
  case (Cons c cs)
  obtain r w1 where l: "llama (SUMMARY_PROMPT c) 256 w = (r, w1)" by (cases "llama (SUMMARY_PROMPT c) 256 w")
  with Cons.prems obtain out where out: "r = Inr out" by (cases r) auto
  from Cons.prems l out obtain bs1 ps1 where
    s: "summary_lines (bs, ps) (splitlines out) = Inr (bs1, ps1)"
    by (cases "summary_lines (bs, ps) (splitlines out)") auto
  note b1 = summary_lines_bullets[OF s]
  show ?case
  proof (cases "5 \<le> length bs1")
    case True
    then have "bs' = bs1" using Cons.prems l out s by simp
    then show ?thesis using b1 by simp
  next
    case False
    then have "summarize_chunks llama cs (bs1, ps1) w1 = (Inr (bs', ps'), w')"
      using Cons.prems l out s by simp
    from Cons.IH[OF this] b1 show ?thesis using prefix_order.trans by blast
  qed
qed

lemma py_slice_take: "0 \<le> n \<Longrightarrow> py_slice xs 0 n = take (nat n) xs"
  by (auto simp: py_slice_def adjust_index_def Let_def min_def)

lemma set_first_occurrences: "set (first_occurrences xs) = set xs"
  by (induction xs) auto

lemma distinct_first_occurrences: "distinct (first_occurrences xs)"
  by (induction xs) (auto simp: distinct_removeAll)

lemma removeAll_first_occurrences_mid:
  "removeAll x (first_occurrences (us @ x # vs)) = removeAll x (first_occurrences (us @ vs))"
proof (induction us)
  case Nil
  show ?case by simp
next
  case (Cons a us)
  have "removeAll x (removeAll a (first_occurrences (us @ x # vs)))
        = removeAll x (removeAll a (first_occurrences (us @ vs)))"
    using Cons.IH by (simp add: removeAll_commute[of x a])
  then show ?case using Cons.IH by auto
qed

lemma first_occurrences_seen:
  "x \<in> set xs \<Longrightarrow> first_occurrences (xs @ x # ys) = first_occurrences (xs @ ys)"
proof (induction xs)
  case Nil
  then show ?case by simp
next
  case (Cons a xs)
  show ?case
  proof (cases "a = x")
    case True
    then show ?thesis using removeAll_first_occurrences_mid[of x xs ys] by simp
  next
    case False
    then show ?thesis using Cons by simp
  qed
qed

lemma first_occurrences_new:
  "x \<notin> set xs \<Longrightarrow> first_occurrences (xs @ [x]) = first_occurrences xs @ [x]"
  by (induction xs) auto

lemma summary_line_bullet:
  assumes "summary_line (bs, ps) l = Inr (bs', ps')"
  shows "bs' = (case bullet_of_line l of
                  Some b \<Rightarrow> if b \<in> set bs then bs else bs @ [b]
                | None \<Rightarrow> bs)"
  using assms
  by (auto simp: summary_line_def bullet_of_line_def Let_def split: if_splits sum.splits)

lemma summary_lines_first_occurrences:
  assumes "summary_lines (first_occurrences pre, ps) ls = Inr (bs', ps')"
  shows "bs' = first_occurrences (pre @ List.map_filter bullet_of_line ls)"
  using assms
proof (induction ls arbitrary: pre ps)
  case Nil
  then show ?case by simp
next
  case (Cons l ls)
  from Cons.prems obtain bs1 ps1 where
    s: "summary_line (first_occurrences pre, ps) l = Inr (bs1, ps1)"
       "summary_lines (bs1, ps1) ls = Inr (bs', ps')"
    by (auto split: sum.splits)
  note b = summary_line_bullet[OF s(1)]
  show ?case
  proof (cases "bullet_of_line l")
    case None
    then have "bs1 = first_occurrences pre" using b by simp
    with s(2) Cons.IH[of pre ps1] None show ?thesis by simp
  next
    case (Some b')
    show ?thesis
    proof (cases "b' \<in> set pre")
      case True
      then have "bs1 = first_occurrences pre" using b Some by (simp add: set_first_occurrences)
      with s(2) Cons.IH[of pre ps1] have "bs' = first_occurrences (pre @ List.map_filter bullet_of_line ls)"
        by simp
      then show ?thesis using Some True by (simp add: first_occurrences_seen)
    next
      case False
      then have "bs1 = first_occurrences (pre @ [b'])"
        using b Some by (simp add: set_first_occurrences first_occurrences_new)
      with s(2) Cons.IH[of "pre @ [b']" ps1] show ?thesis using Some by simp
    qed
  qed
qed

lemma summarize_chunks_first_occurrences:
  assumes "summarize_chunks llama cs (first_occurrences pre, ps) w = (Inr (bs', ps'), w')"
  shows "\<exists>k outs. k \<le> length cs \<and> llama_texts llama (take k cs) w = Some (outs, w')
           \<and> bs' = first_occurrences (pre @ concat (map bullet_candidates outs))"
  using assms
proof (induction cs arbitrary: pre ps w)
  case Nil
  then show ?case by simp
next
  case (Cons c cs)
  obtain r w1 where l: "llama (SUMMARY_PROMPT c) 256 w = (r, w1)"
    by (cases "llama (SUMMARY_PROMPT c) 256 w")
  with Cons.prems obtain out where out: "r = Inr out" by (cases r) auto
  from Cons.prems l out obtain bs1 ps1 where
    s: "summary_lines (first_occurrences pre, ps) (splitlines out) = Inr (bs1, ps1)"
    by (cases "summary_lines (first_occurrences pre, ps) (splitlines out)") auto
  have b1: "bs1 = first_occurrences (pre @ bullet_candidates out)"
    using summary_lines_first_occurrences[OF s] by (simp add: bullet_candidates_def)
  show ?case
  proof (cases "5 \<le> length bs1")
    case True
    then have "bs' = bs1" "w' = w1" using Cons.prems l out s by simp_all
    then have "llama_texts llama (take 1 (c # cs)) w = Some ([out], w')
               \<and> bs' = first_occurrences (pre @ concat (map bullet_candidates [out]))"
      using l out b1 by simp
    then show ?thesis by (intro exI[of _ 1] exI[of _ "[out]"]) simp
  next
    case False
    then have "summarize_chunks llama cs (first_occurrences (pre @ bullet_candidates out), ps1) w1
                 = (Inr (bs', ps'), w')"
      using Cons.prems l out s b1 by simp
    from Cons.IH[OF this] obtain k outs where
      k: "k \<le> length cs" "llama_texts llama (take k cs) w1 = Some (outs, w')"
         "bs' = first_occurrences ((pre @ bullet_candidates out) @ concat (map bullet_candidates outs))"
      by blast
    have "llama_texts llama (take (Suc k) (c # cs)) w = Some (out # outs, w')"
      using l out k(2) by simp
    then show ?thesis using k(1,3)
      by (intro exI[of _ "Suc k"] exI[of _ "out # outs"]) simp
  qed
qed

lemma summarize_returns: "\<exists>res. summarize get_llama text_field url_text w = Some res"
proof -
  let ?full = "if text_field \<noteq> [] then text_field else url_text"
  have "\<exists>chunks. simple_chunk_text ?full 3200 = Some chunks"
    by (rule simple_chunk_text_returns) simp
  then obtain chunks where c: "simple_chunk_text ?full 3200 = Some chunks" by blast
  show ?thesis
  proof (cases get_llama)
    case (Inl e)
    then show ?thesis by (simp add: summarize_def Let_def)
  next
    case (Inr llama)
    obtain r w1 where s: "summarize_chunks llama chunks ([], []) w = (r, w1)"
      by (cases "summarize_chunks llama chunks ([], []) w")
    show ?thesis
    proof (cases r)
      case (Inl e)
      then show ?thesis using Inr c s by (simp add: summarize_def Let_def)
    next
      case (Inr st)
      then show ?thesis using \<open>get_llama = Inr llama\<close> c s
        by (cases st) (simp add: summarize_def Let_def)
    qed
  qed
qed

lemma summarize_result:
  assumes "summarize get_llama text_field url_text w = Some (Inr r, w')"
  shows "\<exists>llama chunks acc ps.
            get_llama = Inr llama
          \<and> simple_chunk_text (if text_field \<noteq> [] then text_field else url_text) 3200 = Some chunks
          \<and> summarize_chunks llama chunks ([], []) w = (Inr (acc, ps), w')
          \<and> bullets r = take 5 acc"
proof -
  let ?full = "if text_field \<noteq> [] then text_field else url_text"
  from assms have ne: "?full \<noteq> []" by (auto simp: summarize_def Let_def split: if_splits)
  from assms ne obtain llama where g: "get_llama = Inr llama"
    by (cases get_llama) (auto simp: summarize_def Let_def split: if_splits)
  from assms ne g obtain chunks where c: "simple_chunk_text ?full 3200 = Some chunks"
    by (cases "simple_chunk_text ?full 3200") (auto simp: summarize_def Let_def split: if_splits)
  obtain x w1 where s: "summarize_chunks llama chunks ([], []) w = (x, w1)"
    by (cases "summarize_chunks llama chunks ([], []) w")
  from assms ne g c s obtain st where st: "x = Inr st"
    by (cases x) (auto simp: summarize_def Let_def split: if_splits)
  obtain acc ps where ap: "st = (acc, ps)" by (cases st)
  from assms ne g c s st ap have "w1 = w'" "bullets r = py_slice acc 0 5"
    by (auto simp: summarize_def Let_def split: if_splits)
  then show ?thesis using g c s st ap by (auto simp: py_slice_take)
qed

text \<open>
  Claim C4. The handler of \<open>/summarize\<close> always returns, and whenever it returns a
  response, for whatever texts the generator produced, the bullet list of the response has
  at most 5 entries and no entry twice. Insertion order is preserved: the list is the first
  5 of the bullet texts offered by the lines of the generated texts that were processed
  (the texts for the first \<open>k\<close> chunks), each text kept at its first occurrence, in
  the order of these first occurrences.
\<close>

theorem summarize_bullets_capped_distinct_in_order:
  "(\<exists>res. summarize get_llama text_field url_text w = Some res)
   \<and> (\<forall>r w'. summarize get_llama text_field url_text w = Some (Inr r, w') \<longrightarrow>
         length (bullets r) \<le> 5
       \<and> distinct (bullets r)
       \<and> (\<exists>llama chunks k outs.
              get_llama = Inr llama
            \<and> simple_chunk_text (if text_field \<noteq> [] then text_field else url_text) 3200
                = Some chunks
            \<and> k \<le> length chunks
            \<and> llama_texts llama (take k chunks) w = Some (outs, w')
            \<and> bullets r = take 5 (first_occurrences (concat (map bullet_candidates outs)))))"
proof (intro conjI allI impI)
  show "\<exists>res. summarize get_llama text_field url_text w = Some res"
    by (rule summarize_returns)
next
  fix r w'
  assume a: "summarize get_llama text_field url_text w = Some (Inr r, w')"
  from summarize_result[OF a] obtain llama chunks acc ps where
    g: "get_llama = Inr llama"
    and c: "simple_chunk_text (if text_field \<noteq> [] then text_field else url_text) 3200 = Some chunks"
    and s: "summarize_chunks llama chunks ([], []) w = (Inr (acc, ps), w')"
    and b: "bullets r = take 5 acc"
    by blast
  from s have "summarize_chunks llama chunks (first_occurrences [], []) w = (Inr (acc, ps), w')"
    by simp
  from summarize_chunks_first_occurrences[OF this] obtain k outs where
    k: "k \<le> length chunks" "llama_texts llama (take k chunks) w = Some (outs, w')"
       "acc = first_occurrences ([] @ concat (map bullet_candidates outs))"
    by blast
  show "length (bullets r) \<le> 5" using b by simp
  show "distinct (bullets r)" using b k(3) by (simp add: distinct_first_occurrences)
  show "\<exists>llama chunks k outs.
              get_llama = Inr llama
            \<and> simple_chunk_text (if text_field \<noteq> [] then text_field else url_text) 3200
                = Some chunks
            \<and> k \<le> length chunks
            \<and> llama_texts llama (take k chunks) w = Some (outs, w')
            \<and> bullets r = take 5 (first_occurrences (concat (map bullet_candidates outs)))"
    using g c k b by auto
qed

theorem summarize_bullets_capped_distinct_in_order_witness:
  "summarize
     (Inr (\<lambda>prompt n_predict w.
        (Inr ''- a\<newline>- b\<newline>- a\<newline>- c\<newline>- d\<newline>Summary: S.\<newline>- e\<newline>- f'', w)))
     ''notes'' [] ()
     = Some (Inr \<lparr>bullets = [''a'', ''b'', ''c'', ''d'', ''e''], summary = ''S.''\<rparr>, ())
   \<and> length (bullets \<lparr>bullets = [''a'', ''b'', ''c'', ''d'', ''e''], summary = ''S.''\<rparr>) \<le> 5
   \<and> distinct (bullets \<lparr>bullets = [''a'', ''b'', ''c'', ''d'', ''e''], summary = ''S.''\<rparr>)"
proof -
  let ?llama = "\<lambda>(prompt :: string) (n_predict :: int) (w :: unit).
        (Inr ''- a\<newline>- b\<newline>- a\<newline>- c\<newline>- d\<newline>Summary: S.\<newline>- e\<newline>- f'' :: error + string, w)"
  let ?r = "\<lparr>bullets = [''a'', ''b'', ''c'', ''d'', ''e''], summary = ''S.''\<rparr>"
  have v: "summarize (Inr ?llama) ''notes'' [] () = Some (Inr ?r, ())"
    by code_simp
  from summarize_bullets_capped_distinct_in_order[of "Inr ?llama" "''notes''" "[]" "()"]
  have "summarize (Inr ?llama) ''notes'' [] () = Some (Inr ?r, ())
          \<longrightarrow> length (bullets ?r) \<le> 5 \<and> distinct (bullets ?r)"
    by blast
  then show ?thesis using v by blast
qed

text \<open>
  Claim C10. The marker stripping \<open>lstrip("- ")\<close> removes every leading hyphen and
  space, not only the first marker: from the line \<open>- -3 is negative\<close> the recorded
  bullet is \<open>3 is negative\<close>, without the hyphen of the text, in the line step and in
  the response of the handler.
\<close>

theorem summary_bullet_loses_leading_hyphen:
  "summary_line ([], []) ''- -3 is negative'' = Inr ([''3 is negative''], [])
   \<and> summarize (Inr (\<lambda>prompt n_predict w. (Inr ''- -3 is negative'', w))) ''notes'' [] ()
       = Some (Inr \<lparr>bullets = [''3 is negative''], summary = []\<rparr>, ())
   \<and> (\<forall>s. py_lstrip_chars s ''- '' = dropWhile (\<lambda>c. c = CHR ''-'' \<or> c = CHR '' '') s)"
proof -
  have "summary_line ([], []) ''- -3 is negative'' = Inr ([''3 is negative''], [])"
    by code_simp
  moreover have "summarize (Inr (\<lambda>prompt n_predict w. (Inr ''- -3 is negative'', w)))
                   ''notes'' [] ()
                 = Some (Inr \<lparr>bullets = [''3 is negative''], summary = []\<rparr>, ())"
    by code_simp
  moreover have "\<forall>s. py_lstrip_chars s ''- ''
                      = dropWhile (\<lambda>c. c = CHR ''-'' \<or> c = CHR '' '') s"
    by (simp add: py_lstrip_chars_def)
  ultimately show ?thesis by blast
qed

section \<open>Properties of the generation invoker and of the one-shot runner\<close>

lemma safe_char_plain: "is_safe_char c \<Longrightarrow> plain_char c"
  by (auto simp: is_safe_char_def plain_char_def whitespace_def quotes_def escape_def Let_def)

lemma read_token_word_tail:
  assumes "list_all plain_char s"
  shows "read_token In_word token quoted esc (s @ rest)
           = read_token In_word (token @ s) quoted esc rest"
  using assms
  by (induction s arbitrary: token) (auto simp: plain_char_def)

lemma read_token_word_start:
  assumes "plain_char c"
  shows "read_token In_space [] False esc (c # rest) = read_token In_word [c] False esc rest"
  using assms by (auto simp: plain_char_def)

lemma read_token_plain_word:
  assumes "s \<noteq> []" "list_all plain_char s"
  shows "read_token In_space [] False esc (s @ CHR '' '' # rest) = Inr (Some s, In_space, rest)"
    and "read_token In_space [] False esc s = Inr (Some s, Past_EOF, [])"
proof -
  from assms obtain c cs where s: "s = c # cs" "plain_char c" "list_all plain_char cs"
    by (cases s) auto
  have "read_token In_space [] False esc (s @ CHR '' '' # rest)
          = read_token In_word [c] False esc (cs @ CHR '' '' # rest)"
    using s read_token_word_start by simp
  also have "\<dots> = read_token In_word ([c] @ cs) False esc (CHR '' '' # rest)"
    using s(3) by (rule read_token_word_tail)
  also have "\<dots> = Inr (Some s, In_space, rest)"
    using s(1) by (simp add: whitespace_def emit_def)
  finally show "read_token In_space [] False esc (s @ CHR '' '' # rest) = Inr (Some s, In_space, rest)" .
  have "read_token In_space [] False esc s = read_token In_word [c] False esc (cs @ [])"
    using s read_token_word_start by simp
  also have "\<dots> = read_token In_word ([c] @ cs) False esc []"
    using s(3) by (rule read_token_word_tail)
  also have "\<dots> = Inr (Some s, Past_EOF, [])"
    using s(1) by (simp add: emit_def)
  finally show "read_token In_space [] False esc s = Inr (Some s, Past_EOF, [])" .
qed

lemma read_token_quoted_body:
  "read_token (In_quote (CHR 0x27)) token quoted esc (concat (map quote_char s) @ CHR 0x27 # rest)
     = read_token In_word (token @ s) True esc rest"
proof (induction s arbitrary: token quoted)
  case Nil
  show ?case by simp
next
  case (Cons c cs)
  show ?case
  proof (cases "c = CHR 0x27")
    case True
    have "read_token (In_quote (CHR 0x27)) token quoted esc
            (concat (map quote_char (c # cs)) @ CHR 0x27 # rest)
          = read_token (In_quote (CHR 0x27)) (token @ [c]) True esc
              (concat (map quote_char cs) @ CHR 0x27 # rest)"
      using True by (simp add: quote_char_def whitespace_def quotes_def escape_def escapedquotes_def)
    then show ?thesis using Cons.IH[of "token @ [c]" True] by simp
  next
    case False
    have "read_token (In_quote (CHR 0x27)) token quoted esc
            (concat (map quote_char (c # cs)) @ CHR 0x27 # rest)
          = read_token (In_quote (CHR 0x27)) (token @ [c]) True esc
              (concat (map quote_char cs) @ CHR 0x27 # rest)"
      using False by (simp add: quote_char_def escapedquotes_def)
    then show ?thesis using Cons.IH[of "token @ [c]" True] by simp
  qed
qed

lemma shlex_quote_unfold:
  "shlex_quote s =
     (if s = [] then [CHR 0x27, CHR 0x27]
      else if list_all is_safe_char s then s
      else CHR 0x27 # concat (map quote_char s) @ [CHR 0x27])"
proof -
  have "(\<lambda>c. if c = CHR 0x27 then [CHR 0x27, CHR 0x22, CHR 0x27, CHR 0x22, CHR 0x27] else [c])
          = quote_char"
    by (rule ext) (simp add: quote_char_def)
  then show ?thesis by (simp add: shlex_quote_def)
qed

lemma read_token_quoted:
  "read_token In_space [] False In_space (shlex_quote s @ CHR '' '' # rest)
     = Inr (Some s, In_space, rest)"
proof -
  consider (empty) "s = []" | (safe) "s \<noteq> []" "list_all is_safe_char s"
    | (unsafe) "s \<noteq> []" "\<not> list_all is_safe_char s" by blast
  then show ?thesis
  proof cases
    case empty
    then show ?thesis
      by (simp add: shlex_quote_unfold whitespace_def quotes_def escape_def is_wordchar_def emit_def)
  next
    case safe
    then have "list_all plain_char s" by (auto simp: list_all_iff safe_char_plain)
    from read_token_plain_word(1)[OF safe(1) this] safe show ?thesis
      by (simp add: shlex_quote_unfold)
  next
    case unsafe
    have "read_token In_space [] False In_space (shlex_quote s @ CHR '' '' # rest)
            = read_token (In_quote (CHR 0x27)) [] False In_space
                (concat (map quote_char s) @ CHR 0x27 # CHR '' '' # rest)"
      using unsafe by (simp add: shlex_quote_unfold whitespace_def quotes_def escape_def is_wordchar_def)
    also have "\<dots> = read_token In_word ([] @ s) True In_space (CHR '' '' # rest)"
      by (rule read_token_quoted_body)
    also have "\<dots> = Inr (Some s, In_space, rest)"
      by (simp add: whitespace_def emit_def)
    finally show ?thesis .
  qed
qed

lemma nat_digits_plain: "nat_digits n \<noteq> [] \<and> list_all plain_char (nat_digits n)"
proof (induction n rule: nat_digits.induct)
  case (1 n)
  have d: "list_all plain_char ''0123456789''"
    by (simp add: plain_char_def whitespace_def quotes_def escape_def)
  have k: "\<And>k. k < 10 \<Longrightarrow> plain_char (''0123456789'' ! k)"
    using d by (simp add: list_all_length)
  show ?case
  proof (cases "n < 10")
    case True
    then show ?thesis using k[of n] by (subst (1 2) nat_digits.simps) simp
  next
    case False
    then show ?thesis using 1 k[of "n mod 10"] by (subst (1 2) nat_digits.simps) simp
  qed
qed

lemma str_int_plain: "str_int i \<noteq> [] \<and> list_all plain_char (str_int i)"
  using nat_digits_plain[of "nat i"] nat_digits_plain[of "nat (- i)"]
  by (simp add: str_int_def plain_char_def whitespace_def quotes_def escape_def)

lemma shlex_tokens_plain_word:
  assumes "s \<noteq> []" "list_all plain_char s"
  shows "shlex_tokens In_space (s @ CHR '' '' # rest) acc = shlex_tokens In_space rest (acc @ [s])"
  by (subst shlex_tokens.simps) (simp add: read_token_plain_word(1)[OF assms])

lemma shlex_tokens_quoted:
  "shlex_tokens In_space (shlex_quote s @ CHR '' '' # rest) acc
     = shlex_tokens In_space rest (acc @ [s])"
  by (subst shlex_tokens.simps) (simp add: read_token_quoted)

lemma shlex_tokens_last_word:
  assumes "s \<noteq> []" "list_all plain_char s"
  shows "shlex_tokens In_space s acc = Some (Inr (acc @ [s]))"
proof -
  have "shlex_tokens In_space s acc = shlex_tokens Past_EOF [] (acc @ [s])"
    by (subst shlex_tokens.simps) (simp add: read_token_plain_word(2)[OF assms])
  also have "\<dots> = Some (Inr (acc @ [s]))"
    by (subst shlex_tokens.simps) (simp add: emit_def)
  finally show ?thesis .
qed

lemma shlex_split_command:
  "shlex_split (LLAMA_MAIN_BIN @ '' -m '' @ shlex_quote model
                @ '' -p '' @ shlex_quote prompt @ '' -n '' @ str_int n_predict)
     = Some (Inr [''./main'', ''-m'', model, ''-p'', prompt, ''-n'', str_int n_predict])"
proof -
  let ?r5 = "str_int n_predict"
  let ?r4 = "''-n'' @ CHR '' '' # ?r5"
  let ?r3 = "shlex_quote prompt @ CHR '' '' # ?r4"
  let ?r2 = "''-p'' @ CHR '' '' # ?r3"
  let ?r1 = "shlex_quote model @ CHR '' '' # ?r2"
  let ?r0 = "''-m'' @ CHR '' '' # ?r1"
  have p: "\<And>s. s \<in> {''./main'', ''-m'', ''-p'', ''-n''} \<Longrightarrow> s \<noteq> [] \<and> list_all plain_char s"
    by (auto simp: plain_char_def whitespace_def quotes_def escape_def)
  have "LLAMA_MAIN_BIN @ '' -m '' @ shlex_quote model
          @ '' -p '' @ shlex_quote prompt @ '' -n '' @ str_int n_predict
        = ''./main'' @ CHR '' '' # ?r0"
    by (simp add: LLAMA_MAIN_BIN_def)
  then have "shlex_split (LLAMA_MAIN_BIN @ '' -m '' @ shlex_quote model
                @ '' -p '' @ shlex_quote prompt @ '' -n '' @ str_int n_predict)
             = shlex_tokens In_space (''./main'' @ CHR '' '' # ?r0) []"
    by (simp only: shlex_split_def)
  also have "\<dots> = shlex_tokens In_space ?r0 ([] @ [''./main''])"
    using p[of "''./main''"] by (intro shlex_tokens_plain_word) simp_all
  also have "\<dots> = shlex_tokens In_space ?r1 (([] @ [''./main'']) @ [''-m''])"
    using p[of "''-m''"] by (intro shlex_tokens_plain_word) simp_all
  also have "\<dots> = shlex_tokens In_space ?r2 ((([] @ [''./main'']) @ [''-m'']) @ [model])"
    by (rule shlex_tokens_quoted)
  also have "\<dots> = shlex_tokens In_space ?r3
                      (((([] @ [''./main'']) @ [''-m'']) @ [model]) @ [''-p''])"
    using p[of "''-p''"] by (intro shlex_tokens_plain_word) simp_all
  also have "\<dots> = shlex_tokens In_space ?r4
                      ((((([] @ [''./main'']) @ [''-m'']) @ [model]) @ [''-p'']) @ [prompt])"
    by (rule shlex_tokens_quoted)
  also have "\<dots> = shlex_tokens In_space ?r5
                      (((((([] @ [''./main'']) @ [''-m'']) @ [model]) @ [''-p'']) @ [prompt])
                        @ [''-n''])"
    using p[of "''-n''"] by (intro shlex_tokens_plain_word) simp_all
  also have "\<dots> = Some (Inr ((((((([] @ [''./main'']) @ [''-m'']) @ [model]) @ [''-p''])
                                  @ [prompt]) @ [''-n'']) @ [?r5]))"
    using str_int_plain[of n_predict] by (intro shlex_tokens_last_word) simp_all
  finally show ?thesis by simp
qed

lemma run_llama_once_runs:
  assumes "path_exists (model_or_default model_arg) w"
  shows "run_llama_once run path_exists prompt model_arg n_predict w
         = Some (case run [''./main'', ''-m'', model_or_default model_arg,
                           ''-p'', prompt, ''-n'', str_int n_predict] w of
                   (Inl e, w') \<Rightarrow> (Inl e, w')
                 | (Inr result, w') \<Rightarrow>
                     if returncode result \<noteq> 0
                     then (Inl (RuntimeError (''llama.cpp failed: '' @ py_strip (stderr result))), w')
                     else (Inr (py_strip (stdout result)), w'))"
  unfolding run_llama_once_def Let_def shlex_split_command
  using assms by (simp split: prod.splits sum.splits)

text \<open>
  Claim C5. For every prompt, when the external process of \<open>generate\<close> exits with a
  nonzero status, \<open>generate\<close> raises a \<open>RuntimeError\<close> whose message ends with the
  standard error text of the process, unchanged, and returns no text; when the process
  exits with status zero, \<open>generate\<close> raises nothing and returns the text parsed from the
  standard output. In \<open>run_llama_once\<close> (given that the model file exists) the same holds
  with the message carrying the standard error text trimmed of surrounding whitespace.
\<close>

theorem nonzero_exit_raises_with_stderr:
  "(run (generate_cmd str_float self prompt n_predict temperature top_k top_p) w = (Inr proc, w')
      \<longrightarrow> (returncode proc \<noteq> 0 \<longrightarrow>
             generate run str_float self prompt n_predict temperature top_k top_p w
               = (Inl (RuntimeError (''llama-cli failed (rc='' @ str_int (returncode proc)
                                     @ ''):\<newline>'' @ stderr proc)), w'))
        \<and> (returncode proc = 0 \<longrightarrow>
             generate run str_float self prompt n_predict temperature top_k top_p w
               = (Inr (parse_output (stdout proc)), w')))
   \<and> (path_exists (model_or_default model_arg) w
       \<and> run [''./main'', ''-m'', model_or_default model_arg, ''-p'', prompt,
               ''-n'', str_int n_predict] w = (Inr result, w'')
      \<longrightarrow> (returncode result \<noteq> 0 \<longrightarrow>
             run_llama_once run path_exists prompt model_arg n_predict w
               = Some (Inl (RuntimeError (''llama.cpp failed: '' @ py_strip (stderr result))), w''))
        \<and> (returncode result = 0 \<longrightarrow>
             run_llama_once run path_exists prompt model_arg n_predict w
               = Some (Inr (py_strip (stdout result)), w'')))"
proof (intro conjI impI)
  assume "run (generate_cmd str_float self prompt n_predict temperature top_k top_p) w = (Inr proc, w')"
    and "returncode proc \<noteq> 0"
  then show "generate run str_float self prompt n_predict temperature top_k top_p w
               = (Inl (RuntimeError (''llama-cli failed (rc='' @ str_int (returncode proc)
                                     @ ''):\<newline>'' @ stderr proc)), w')"
    by (simp add: generate_def)
next
  assume "run (generate_cmd str_float self prompt n_predict temperature top_k top_p) w = (Inr proc, w')"
    and "returncode proc = 0"
  then show "generate run str_float self prompt n_predict temperature top_k top_p w
               = (Inr (parse_output (stdout proc)), w')"
    by (simp add: generate_def)
next
  assume a: "path_exists (model_or_default model_arg) w
       \<and> run [''./main'', ''-m'', model_or_default model_arg, ''-p'', prompt,
               ''-n'', str_int n_predict] w = (Inr result, w'')"
    and "returncode result \<noteq> 0"
  then show "run_llama_once run path_exists prompt model_arg n_predict w
               = Some (Inl (RuntimeError (''llama.cpp failed: '' @ py_strip (stderr result))), w'')"
    using run_llama_once_runs[of path_exists model_arg w run prompt n_predict] by simp
next
  assume a: "path_exists (model_or_default model_arg) w
       \<and> run [''./main'', ''-m'', model_or_default model_arg, ''-p'', prompt,
               ''-n'', str_int n_predict] w = (Inr result, w'')"
    and "returncode result = 0"
  then show "run_llama_once run path_exists prompt model_arg n_predict w
               = Some (Inr (py_strip (stdout result)), w'')"
    using run_llama_once_runs[of path_exists model_arg w run prompt n_predict] by simp
qed

theorem nonzero_exit_raises_with_stderr_witness:
  "generate
     (\<lambda>cmd w. (Inr \<lparr>returncode = (if cmd ! 4 = ''ok'' then 0 else 1),
                     stdout = ''header\<newline>\<newline>hello '', stderr = ''boom\<newline>''\<rparr>, w))
     (\<lambda>s. s) \<lparr>model_path = ''/m/a.gguf'', binary_path = ''/b/llama-cli''\<rparr>
     ''bad'' 128 ''0.8'' 40 ''0.95'' ()
     = (Inl (RuntimeError ''llama-cli failed (rc=1):\<newline>boom\<newline>''), ())
   \<and> generate
     (\<lambda>cmd w. (Inr \<lparr>returncode = (if cmd ! 4 = ''ok'' then 0 else 1),
                     stdout = ''header\<newline>\<newline>hello '', stderr = ''boom\<newline>''\<rparr>, w))
     (\<lambda>s. s) \<lparr>model_path = ''/m/a.gguf'', binary_path = ''/b/llama-cli''\<rparr>
     ''ok'' 128 ''0.8'' 40 ''0.95'' ()
     = (Inr ''hello'', ())
   \<and> run_llama_once
     (\<lambda>cmd w. (Inr \<lparr>returncode = (if cmd ! 4 = ''ok'' then 0 else 1),
                     stdout = ''header\<newline>\<newline>hello '', stderr = ''boom\<newline>''\<rparr>, w))
     (\<lambda>p w. True) ''bad'' None 128 ()
     = Some (Inl (RuntimeError ''llama.cpp failed: boom''), ())
   \<and> run_llama_once
     (\<lambda>cmd w. (Inr \<lparr>returncode = (if cmd ! 4 = ''ok'' then 0 else 1),
                     stdout = ''header\<newline>\<newline>hello '', stderr = ''boom\<newline>''\<rparr>, w))
     (\<lambda>p w. True) ''ok'' None 128 ()
     = Some (Inr ''header\<newline>\<newline>hello'', ())"
proof -
  let ?run = "\<lambda>(cmd :: string list) (w :: unit).
       (Inr \<lparr>returncode = (if cmd ! 4 = ''ok'' then 0 else 1),
              stdout = ''header\<newline>\<newline>hello '', stderr = ''boom\<newline>''\<rparr> :: error + completed_process, w)"
  let ?self = "\<lparr>model_path = ''/m/a.gguf'', binary_path = ''/b/llama-cli''\<rparr>"
  let ?bad = "\<lparr>returncode = 1, stdout = ''header\<newline>\<newline>hello '', stderr = ''boom\<newline>''\<rparr>"
  let ?ok = "\<lparr>returncode = 0, stdout = ''header\<newline>\<newline>hello '', stderr = ''boom\<newline>''\<rparr>"
  have d: "str_int 1 = ''1''" "parse_output ''header\<newline>\<newline>hello '' = ''hello''"
    "py_strip ''boom\<newline>'' = ''boom''" "py_strip ''header\<newline>\<newline>hello '' = ''header\<newline>\<newline>hello''"
    by code_simp+
  note bad = nonzero_exit_raises_with_stderr[where run = ?run and str_float = "\<lambda>s. s"
      and self = ?self and prompt = "''bad''" and n_predict = 128 and temperature = "''0.8''"
      and top_k = 40 and top_p = "''0.95''" and w = "()" and proc = ?bad and w' = "()"
      and path_exists = "\<lambda>p w. True" and model_arg = None and result = ?bad and w'' = "()"]
  note ok = nonzero_exit_raises_with_stderr[where run = ?run and str_float = "\<lambda>s. s"
      and self = ?self and prompt = "''ok''" and n_predict = 128 and temperature = "''0.8''"
      and top_k = 40 and top_p = "''0.95''" and w = "()" and proc = ?ok and w' = "()"
      and path_exists = "\<lambda>p w. True" and model_arg = None and result = ?ok and w'' = "()"]
  show ?thesis using bad ok d by (simp add: generate_cmd_def)
qed

text \<open>
  Claim C6. For every prompt string, whatever characters it holds, \<open>generate\<close> runs the
  external process on an argument list whose fifth element is the prompt itself, unchanged,
  after \<open>-p\<close>; the list is built as a list and no command string is formed. In
  \<open>run_llama_once\<close> (given that the model file exists) the command string built with
  \<open>shlex.quote\<close> is cut by \<open>shlex.split\<close> into the list
  \<open>./main -m model -p prompt -n n\<close>, whose fifth element is again the prompt itself,
  unchanged; no shell is involved in either function.
\<close>

theorem prompt_is_one_verbatim_argument:
  "generate run str_float self prompt n_predict temperature top_k top_p w
     = (case run [binary_path self, ''-m'', model_path self, ''-p'', prompt,
                  ''-n'', str_int n_predict, ''--temp'', str_float temperature,
                  ''--top-k'', str_int top_k, ''--top-p'', str_float top_p] w of
          (Inl e, w') \<Rightarrow> (Inl e, w')
        | (Inr proc, w') \<Rightarrow>
            if returncode proc \<noteq> 0
            then (Inl (RuntimeError (''llama-cli failed (rc='' @ str_int (returncode proc)
                                     @ ''):\<newline>'' @ stderr proc)), w')
            else (Inr (parse_output (stdout proc)), w'))
   \<and> (path_exists (model_or_default model_arg) w
        \<longrightarrow> run_llama_once run path_exists prompt model_arg n_predict w
            = Some (case run [''./main'', ''-m'', model_or_default model_arg,
                              ''-p'', prompt, ''-n'', str_int n_predict] w of
                      (Inl e, w') \<Rightarrow> (Inl e, w')
                    | (Inr result, w') \<Rightarrow>
                        if returncode result \<noteq> 0
                        then (Inl (RuntimeError (''llama.cpp failed: ''
                                                 @ py_strip (stderr result))), w')
                        else (Inr (py_strip (stdout result)), w')))"
  using run_llama_once_runs[of path_exists model_arg w run prompt n_predict]
  by (simp add: generate_def generate_cmd_def)

theorem prompt_is_one_verbatim_argument_witness:
  "generate (\<lambda>cmd w. (Inl (ValueError []), w @ [cmd])) (\<lambda>s. s)
      \<lparr>model_path = ''/m/a.gguf'', binary_path = ''/b/llama-cli''\<rparr>
      ''it's; rm -rf \"$HOME\"\<newline>x'' 128 ''0.8'' 40 ''0.95'' []
     = (Inl (ValueError []),
        [[''/b/llama-cli'', ''-m'', ''/m/a.gguf'', ''-p'', ''it's; rm -rf \"$HOME\"\<newline>x'',
          ''-n'', ''128'', ''--temp'', ''0.8'', ''--top-k'', ''40'', ''--top-p'', ''0.95'']])
   \<and> (\<lambda>p w. True) (model_or_default None) ([] :: string list list)
   \<and> run_llama_once (\<lambda>cmd w. (Inl (ValueError []), w @ [cmd])) (\<lambda>p w. True)
        ''it's; rm -rf \"$HOME\"\<newline>x'' None 128 []
     = Some (Inl (ValueError []),
             [[''./main'', ''-m'', ''models/tinyllama.gguf'', ''-p'',
               ''it's; rm -rf \"$HOME\"\<newline>x'', ''-n'', ''128'']])"
proof -
  have d: "str_int 128 = ''128''" "str_int 40 = ''40''"
    by code_simp+
  note t = prompt_is_one_verbatim_argument[where run = "\<lambda>cmd w. (Inl (ValueError []), w @ [cmd])"
      and str_float = "\<lambda>s. s"
      and self = "\<lparr>model_path = ''/m/a.gguf'', binary_path = ''/b/llama-cli''\<rparr>"
      and prompt = "''it's; rm -rf \"$HOME\"\<newline>x''" and temperature = "''0.8''"
      and top_k = 40 and top_p = "''0.95''" and w = "[]" and path_exists = "\<lambda>p w. True"
      and model_arg = None and n_predict = 128]
  show ?thesis using t d by (simp add: model_or_default_def MODEL_PATH_def)
qed

end
